theory Spec2Isabelle
  imports Complex_Main "HOL-Library.Signed_Division"
begin

section \<open>Go values used by the synchronizer\<close>

text \<open>
  A \<^verbatim>\<open>time.Duration\<close> is a signed 64-bit count of nanoseconds. The program only compares
  durations and converts them to seconds, it never adds or multiplies them, so no
  wrap-around can occur and the count is modelled as an \<open>int\<close>.

  A \<^verbatim>\<open>float64\<close> is modelled as the real number it denotes; comparing two floats is
  comparing these reals. Every float the program handles comes out of
  \<^verbatim>\<open>Duration.Seconds\<close>, so none is a NaN or an infinity. What does matter is the
  rounding: each float operation returns the double nearest to the exact result, ties to
  the even significand. \<open>float64\<close> is that rounding for a double with a 53-bit
  significand: \<open>exponent x\<close> is the binary exponent of a positive \<open>x\<close> (computed
  on integers by \<open>bitLength\<close>), a unit in the last place is two to the power
  \<open>exponent x - 52\<close>, and the value is rounded to a multiple of it. The exponent range
  of a double is not modelled: the values converted here lie between \<open>10\<^sup>-\<^sup>9\<close> and
  \<open>2\<^sup>3\<^sup>4\<close> in magnitude, far from overflow and from the subnormal numbers.
\<close>

type_synonym Duration = int

definition Second :: Duration where
  "Second = 1000000000"

definition roundEven :: "real \<Rightarrow> int" where
  "roundEven q =
     (let f = \<lfloor>q\<rfloor>
      in if q - of_int f < 1 / 2 then f
         else if 1 / 2 < q - of_int f then f + 1
         else if even f then f else f + 1)"

function bitLength :: "int \<Rightarrow> int" where
  "bitLength n = (if n \<le> 0 then 0 else 1 + bitLength (n div 2))"
  by pat_completeness auto
termination
  by (relation "measure nat") auto

declare bitLength.simps [simp del]

definition exponent :: "real \<Rightarrow> int" where
  "exponent x =
     (if 1 \<le> x then bitLength \<lfloor>x\<rfloor> - 1 else - bitLength (\<lceil>1 / x\<rceil> - 1))"

definition float64 :: "real \<Rightarrow> real" where
  "float64 x =
     (if x = 0 then 0
      else let ulp = 2 powi (exponent \<bar>x\<bar> - 52)
           in sgn x * (of_int (roundEven (\<bar>x\<bar> / ulp)) * ulp))"

text \<open>
  \<^verbatim>\<open>Duration.Seconds\<close>, as the library writes it:
  \<^verbatim>\<open>sec := d / Second; nsec := d % Second; return float64(sec) + float64(nsec)/1e9\<close>,
  with Go's truncating division and remainder, and one rounding for each conversion,
  for the quotient and for the sum.
\<close>

definition Seconds :: "Duration \<Rightarrow> real" where
  "Seconds d =
     float64 (float64 (of_int (d sdiv Second)) +
              float64 (float64 (of_int (d smod Second)) / 1000000000))"

text \<open>
  A \<^verbatim>\<open>time.Time\<close>: the instant, counted in nanoseconds from the zero time
  (January 1, year 1, 00:00 UTC), and the name of the location it is shown in.
\<close>

record Time =
  instant :: int
  location :: string

definition IsZero :: "Time \<Rightarrow> bool" where
  "IsZero t = (instant t = 0)"

definition In :: "Time \<Rightarrow> string \<Rightarrow> Time" where
  "In t loc = t\<lparr>location := loc\<rparr>"

section \<open>Records\<close>

text \<open>
  \<^verbatim>\<open>itop.Ticket\<close> is declared outside the files at hand; its fields are the ones
  \<^verbatim>\<open>mapTicketToES\<close> reads, with the types it uses them at.
\<close>

record Ticket =
  ID :: string
  Ref :: string
  Class :: string
  Title :: string
  Status :: string
  Priority :: string
  Urgency :: string
  Impact :: string
  ServiceID :: string
  Service :: string
  ServiceSubcategory :: string
  AgentID :: string
  Agent :: string
  TeamID :: string
  Team :: string
  Caller :: string
  Origin :: string
  StartDate :: Time
  AssignmentDate :: Time
  ResolutionDate :: Time
  TimeToResponse :: Duration
  TimeToResolve :: Duration

text \<open>The deadlines \<^verbatim>\<open>GetSLTDeadlineCached\<close> returns: \<^verbatim>\<open>slt.TTO\<close> and \<^verbatim>\<open>slt.TTR\<close>.\<close>

record SLT =
  TTO :: Duration
  TTR :: Duration

text \<open>\<^verbatim>\<open>ESTicket\<close>, the document stored in Elasticsearch (main.go, lines 29-64).\<close>

record ESTicket =
  esID :: string
  esRef :: string
  esClass :: string
  esTitle :: string
  esStatus :: string
  esPriority :: string
  esUrgency :: string
  esImpact :: string
  esServiceID :: string
  esServiceName :: string
  esServiceSubcategoryName :: string
  esAgentID :: string
  esAgent :: string
  esTeamID :: string
  esTeam :: string
  esCaller :: string
  esCallerTeam :: string
  esOrigin :: string
  esStartDate :: "Time option"
  esAssignmentDate :: "Time option"
  esResolutionDate :: "Time option"
  TimeToResponseRaw :: real
  TimeToResolveRaw :: real
  SLAComplianceResponseRaw :: string
  SLAComplianceResolveRaw :: string
  TimeToResponseBusinessHr :: real
  TimeToResolveBusinessHr :: real
  SLAComplianceResponseBusinessHour :: string
  SLAComplianceResolveBusinessHour :: string
  TimeToResponse24BH :: real
  TimeToResolve24BH :: real
  SLAComplianceResponse24BH :: string
  SLAComplianceResolve24BH :: string

text \<open>\<^verbatim>\<open>ESConfig\<close> (main.go, lines 21-26).\<close>

record ESConfig =
  confURL :: string
  confUsername :: string
  confPassword :: string
  confIndex :: string

section \<open>The program's environment\<close>

text \<open>
  Everything the two files call that is neither in them nor pure: the process
  environment, the library (\<^verbatim>\<open>crypto/sha1\<close> with \<^verbatim>\<open>encoding/hex\<close>,
  \<^verbatim>\<open>encoding/json\<close>, \<^verbatim>\<open>time.LoadLocation\<close>, \<^verbatim>\<open>net/http\<close>) and the functions of the
  packages \<^verbatim>\<open>itop\<close> and \<^verbatim>\<open>utils\<close> declared in other files. Each is a field of the
  environment, so every theorem below holds for whatever these functions compute.
  \<^item> \<open>Getenv\<close>: \<^verbatim>\<open>os.Getenv\<close>.
  \<^item> \<open>Sha1Hex\<close>: \<^verbatim>\<open>hex.EncodeToString\<close> of the SHA-1 digest of the bytes written.
  \<^item> \<open>Marshal\<close>: the bytes of \<^verbatim>\<open>json.Marshal\<close> of an \<^verbatim>\<open>ESTicket\<close> (the error is
    dropped by the caller; on an error the bytes are empty).
  \<^item> \<open>LoadLocation\<close>: \<^verbatim>\<open>time.LoadLocation\<close>, \<open>None\<close> on an error; \<open>Local\<close>: \<^verbatim>\<open>time.Local\<close>.
  \<^item> \<open>CalculateBusinessHourDuration\<close>: \<^verbatim>\<open>utils.CalculateBusinessHourDuration\<close>.
  \<^item> \<open>GetSLTDeadlineCached\<close>: \<^verbatim>\<open>itop.GetSLTDeadlineCached\<close> (its error is dropped).
  \<^item> \<open>Post\<close>: \<^verbatim>\<open>ITopClient.Post("core/get", params)\<close> as a function of the \<^verbatim>\<open>key\<close>
    parameter, the only one that varies; \<open>Inl\<close> is the error.
  \<^item> \<open>Unmarshal\<close>: \<^verbatim>\<open>json.Unmarshal\<close> of a person response; \<open>Inl\<close> is the error.
  \<^item> \<open>Do\<close>: \<^verbatim>\<open>http.DefaultClient.Do\<close>; \<open>Inl\<close> is the error.
\<close>

text \<open>
  The decoded response of the person lookup. \<open>Objects\<close> lists the entries of the Go
  map in the order the \<^verbatim>\<open>range\<close> loop visits them, each with its team names.
\<close>

record person_result =
  Code :: int
  Message :: string
  Objects :: "(string \<times> string list) list"

record http_request =
  reqMethod :: string
  reqURL :: string
  reqBasicAuth :: "(string \<times> string) option"
  reqContentType :: "string option"
  reqBody :: "string option"

record http_response =
  StatusCode :: int
  respBody :: string

record env =
  Getenv :: "string \<Rightarrow> string"
  Sha1Hex :: "string \<Rightarrow> string"
  Marshal :: "ESTicket \<Rightarrow> string"
  LoadLocation :: "string \<Rightarrow> string option"
  Local :: string
  CalculateBusinessHourDuration ::
    "Time \<Rightarrow> Time \<Rightarrow> string \<Rightarrow> string \<Rightarrow> string set \<Rightarrow> Duration"
  GetSLTDeadlineCached :: "string \<Rightarrow> string \<Rightarrow> string \<Rightarrow> SLT"
  Post :: "string \<Rightarrow> string + string"
  Unmarshal :: "string \<Rightarrow> string + person_result"
  Do :: "http_request \<Rightarrow> string + http_response"

section \<open>Person teams (package itop)\<close>

text \<open>
  The package's mutable state: \<^verbatim>\<open>personTeamCache\<close>, and the list of queries sent to the
  remote so far, kept so that "the remote is contacted" can be stated. The mutex and the
  rate limiter's tick only delay a call; they are not modelled, nor is the log output
  of this package.
\<close>

record itop_state =
  personTeamCache :: "string \<rightharpoonup> string"
  posted :: "string list"

definition dquote :: char where
  "dquote = CHR 0x22"

definition backslash :: char where
  "backslash = CHR 0x5C"

text \<open>\<^verbatim>\<open>strings.ReplaceAll(personName, "\"", "\\\"")\<close>\<close>

definition escapeQuotes :: "string \<Rightarrow> string" where
  "escapeQuotes s = concat (map (\<lambda>c. if c = dquote then [backslash, dquote] else [c]) s)"

text \<open>\<^verbatim>\<open>strings.Join\<close>\<close>

fun Join :: "string list \<Rightarrow> string \<Rightarrow> string" where
  "Join [] sep = []"
| "Join [x] sep = x"
| "Join (x # y # ys) sep = x @ sep @ Join (y # ys) sep"

text \<open>
  The \<^verbatim>\<open>key\<close> parameter of the lookup (line 146), with the name escaped (line 129).
\<close>

abbreviation personQuery :: "string \<Rightarrow> string" where
  "personQuery personName \<equiv>
     ''SELECT Person WHERE friendlyname='' @ [dquote] @ escapeQuotes personName @ [dquote]"

text \<open>
  \<^verbatim>\<open>FetchPersonTeams\<close> (part_000, lines 108-198). The result is the returned pair (team
  list, error) and the state afterwards.
\<close>

definition FetchPersonTeams ::
  "env \<Rightarrow> string \<Rightarrow> itop_state \<Rightarrow> (string \<times> string option) \<times> itop_state" where
  "FetchPersonTeams e personName st =
     (case personTeamCache st personName of
        Some team \<Rightarrow> ((team, None), st)
      | None \<Rightarrow>
          if personName = [] then
            ((''-'', None), st\<lparr>personTeamCache := (personTeamCache st)(personName \<mapsto> ''-'')\<rparr>)
          else if Getenv e ''ITOP_API_URL'' = [] \<or> Getenv e ''ITOP_API_USER'' = [] \<or>
                  Getenv e ''ITOP_API_PWD'' = [] then
            ((''-'', None), st)
          else
            let key = personQuery personName;
                st1 = st\<lparr>posted := posted st @ [key]\<rparr>
            in (case Post e key of
                  Inl err \<Rightarrow> ((''-'', Some err), st1)
                | Inr resp \<Rightarrow>
                    (case Unmarshal e resp of
                       Inl err \<Rightarrow> ((''-'', Some err), st1)
                     | Inr result \<Rightarrow>
                         if Code result \<noteq> 0 \<or> length (Objects result) = 0 then
                           ((''-'', None),
                            st1\<lparr>personTeamCache := (personTeamCache st1)(personName \<mapsto> ''-'')\<rparr>)
                         else
                           let teamNames = concat (map snd (Objects result))
                           in if length teamNames = 0 then
                                ((''-'', None),
                                 st1\<lparr>personTeamCache :=
                                       (personTeamCache st1)(personName \<mapsto> ''-'')\<rparr>)
                              else
                                let teamList = Join teamNames '', ''
                                in ((teamList, None),
                                    st1\<lparr>personTeamCache :=
                                          (personTeamCache st1)(personName \<mapsto> teamList)\<rparr>))))"

text \<open>A run of resolutions, one after the other, as successive tickets cause them.\<close>

fun resolveAll :: "env \<Rightarrow> string list \<Rightarrow> itop_state \<Rightarrow> itop_state" where
  "resolveAll e [] st = st"
| "resolveAll e (n # ns) st = resolveAll e ns (snd (FetchPersonTeams e n st))"

section \<open>Mapping a ticket to its document (main.go)\<close>

definition priorityLabel :: "string \<Rightarrow> string" where
  "priorityLabel i =
     (if i = ''1'' then ''Critical'' else if i = ''2'' then ''High''
      else if i = ''3'' then ''Medium'' else if i = ''4'' then ''Low'' else i)"

definition urgencyLabel :: "string \<Rightarrow> string" where
  "urgencyLabel i =
     (if i = ''1'' then ''Critical'' else if i = ''2'' then ''High''
      else if i = ''3'' then ''Medium'' else if i = ''4'' then ''Low'' else i)"

definition impactLabel :: "string \<Rightarrow> string" where
  "impactLabel i =
     (if i = ''1'' then ''A department'' else if i = ''2'' then ''A service''
      else if i = ''3'' then ''A person'' else i)"

text \<open>
  The three compliance blocks of \<^verbatim>\<open>mapTicketToES\<close> are written out twice each in the
  source (response, resolution); the conditions below are the source's, token by token.
  \<open>rawVerdict\<close> is lines 201-209 (and 210-218), \<open>bhVerdict\<close> is lines 222-232 (and
  233-243, 247-257, 258-268): \<open>slt\<close> is the deadline, \<open>bh\<close> the windowed duration and
  \<open>raw\<close> the wall-clock seconds.
\<close>

definition rawVerdict :: "Duration \<Rightarrow> real \<Rightarrow> string" where
  "rawVerdict slt raw =
     (if slt > 0 \<and> raw > 0 then
        (if raw \<le> Seconds slt then ''comply'' else ''overdue'')
      else [])"

definition bhVerdict :: "Duration \<Rightarrow> Duration \<Rightarrow> real \<Rightarrow> string" where
  "bhVerdict slt bh raw =
     (if slt > 0 then
        (if (bh > 0 \<and> Seconds bh \<le> Seconds slt) \<or>
            (Seconds bh = 0 \<and> raw > 0 \<and> raw \<le> Seconds slt) then ''comply''
         else if Seconds bh > 0 then ''overdue''
         else [])
      else [])"

text \<open>
  The same decision read on the seconds the document stores for the windowed duration
  (\<^verbatim>\<open>ttoBH.Seconds()\<close>): a duration is positive exactly when its seconds are.
\<close>

definition bhVerdictSecs :: "Duration \<Rightarrow> real \<Rightarrow> real \<Rightarrow> string" where
  "bhVerdictSecs slt bh raw =
     (if slt > 0 then
        (if (bh > 0 \<and> bh \<le> Seconds slt) \<or> (bh = 0 \<and> raw > 0 \<and> raw \<le> Seconds slt)
         then ''comply''
         else if bh > 0 then ''overdue'' else [])
      else [])"

definition datePtr :: "Time \<Rightarrow> string \<Rightarrow> Time option" where
  "datePtr d loc = (if \<not> IsZero d then Some (In d loc) else None)"

text \<open>
  \<^verbatim>\<open>mapTicketToES\<close> (main.go, lines 166-328), with the state of package \<^verbatim>\<open>itop\<close>
  passed through the call of \<^verbatim>\<open>FetchPersonTeams\<close>. The \<^verbatim>\<open>debug\<close> flag only selects
  a log line.
\<close>

definition mapTicketToES ::
  "env \<Rightarrow> Ticket \<Rightarrow> string set \<Rightarrow> bool \<Rightarrow> itop_state \<Rightarrow> ESTicket \<times> itop_state" where
  "mapTicketToES e t holidays debug st =
     (let workStart = (if Getenv e ''WORK_START'' = [] then ''08:00'' else Getenv e ''WORK_START'');
          workEnd = (if Getenv e ''WORK_END'' = [] then ''17:00'' else Getenv e ''WORK_END'');
          ttrRaw = Seconds (TimeToResolve t);
          ttoRaw = Seconds (TimeToResponse t);
          ttrBH = CalculateBusinessHourDuration e (StartDate t) (ResolutionDate t)
                    workStart workEnd holidays;
          ttoBH = CalculateBusinessHourDuration e (StartDate t) (AssignmentDate t)
                    workStart workEnd holidays;
          ttr24BH = CalculateBusinessHourDuration e (StartDate t) (ResolutionDate t)
                      ''00:00'' ''23:59'' holidays;
          tto24BH = CalculateBusinessHourDuration e (StartDate t) (AssignmentDate t)
                      ''00:00'' ''23:59'' holidays;
          (callerTeam, st') =
             (if Caller t \<noteq> [] then
                (case FetchPersonTeams e (Caller t) st of ((team, err), s) \<Rightarrow> (team, s))
              else (''-'', st));
          slt = GetSLTDeadlineCached e (Class t) (Priority t) (Service t);
          tz = (if Getenv e ''TIMEZONE'' = [] then ''UTC'' else Getenv e ''TIMEZONE'');
          loc = (case LoadLocation e tz of Some l \<Rightarrow> l | None \<Rightarrow> Local e)
      in (\<lparr>esID = ID t,
           esRef = Ref t,
           esClass = Class t,
           esTitle = Title t,
           esStatus = Status t,
           esPriority = priorityLabel (Priority t),
           esUrgency = urgencyLabel (Urgency t),
           esImpact = impactLabel (Impact t),
           esServiceID = ServiceID t,
           esServiceName = Service t,
           esServiceSubcategoryName = ServiceSubcategory t,
           esAgentID = AgentID t,
           esAgent = Agent t,
           esTeamID = TeamID t,
           esTeam = Team t,
           esCaller = Caller t,
           esCallerTeam = callerTeam,
           esOrigin = Origin t,
           esStartDate = datePtr (StartDate t) loc,
           esAssignmentDate = datePtr (AssignmentDate t) loc,
           esResolutionDate = datePtr (ResolutionDate t) loc,
           TimeToResponseRaw = ttoRaw,
           TimeToResolveRaw = ttrRaw,
           SLAComplianceResponseRaw = rawVerdict (TTO slt) ttoRaw,
           SLAComplianceResolveRaw = rawVerdict (TTR slt) ttrRaw,
           TimeToResponseBusinessHr = Seconds ttoBH,
           TimeToResolveBusinessHr = Seconds ttrBH,
           SLAComplianceResponseBusinessHour = bhVerdict (TTO slt) ttoBH ttoRaw,
           SLAComplianceResolveBusinessHour = bhVerdict (TTR slt) ttrBH ttrRaw,
           TimeToResponse24BH = Seconds tto24BH,
           TimeToResolve24BH = Seconds ttr24BH,
           SLAComplianceResponse24BH = bhVerdict (TTO slt) tto24BH ttoRaw,
           SLAComplianceResolve24BH = bhVerdict (TTR slt) ttr24BH ttrRaw\<rparr>, st'))"

section \<open>Identity hash, comparison and the sink calls (main.go)\<close>

text \<open>\<^verbatim>\<open>hashTicketKey\<close> (lines 160-164).\<close>

definition hashTicketKey :: "env \<Rightarrow> string \<Rightarrow> string \<Rightarrow> string \<Rightarrow> string" where
  "hashTicketKey e i ref class = Sha1Hex e (i @ '':'' @ ref @ '':'' @ class)"

text \<open>\<^verbatim>\<open>compareESTicket\<close> (lines 373-377): equality of the serialized bytes.\<close>

definition compareESTicket :: "env \<Rightarrow> ESTicket \<Rightarrow> ESTicket \<Rightarrow> bool" where
  "compareESTicket e a b = (Marshal e a = Marshal e b)"

text \<open>
  \<^verbatim>\<open>upsertESTicket\<close> (lines 409-429) and \<^verbatim>\<open>deleteESTicket\<close> (lines 431-448). Each
  returns the request it sends and the lines it logs: the log is the only way either
  function reports an error.
\<close>

definition upsertESTicket :: "env \<Rightarrow> ESConfig \<Rightarrow> ESTicket \<Rightarrow> http_request \<times> string list" where
  "upsertESTicket e conf t =
     (let i = hashTicketKey e (esID t) (esRef t) (esClass t);
          url = confURL conf @ ''/'' @ confIndex conf @ ''/_doc/'' @ i;
          data = Marshal e t;
          req = \<lparr>reqMethod = ''PUT'', reqURL = url,
                 reqBasicAuth = (if confUsername conf \<noteq> []
                                 then Some (confUsername conf, confPassword conf) else None),
                 reqContentType = Some ''application/json'',
                 reqBody = Some data\<rparr>
      in (req,
          case Do e req of
            Inl err \<Rightarrow> [''Failed to upsert ES: '' @ err]
          | Inr resp \<Rightarrow>
              if StatusCode resp \<ge> 300 then [''ES upsert error: '' @ respBody resp] else []))"

definition deleteESTicket :: "env \<Rightarrow> ESConfig \<Rightarrow> ESTicket \<Rightarrow> http_request \<times> string list" where
  "deleteESTicket e conf t =
     (let i = hashTicketKey e (esID t) (esRef t) (esClass t);
          url = confURL conf @ ''/'' @ confIndex conf @ ''/_doc/'' @ i;
          req = \<lparr>reqMethod = ''DELETE'', reqURL = url,
                 reqBasicAuth = (if confUsername conf \<noteq> []
                                 then Some (confUsername conf, confPassword conf) else None),
                 reqContentType = None,
                 reqBody = None\<rparr>
      in (req,
          case Do e req of
            Inl err \<Rightarrow> [''Failed to delete ES: '' @ err]
          | Inr resp \<Rightarrow>
              if StatusCode resp \<ge> 300 \<and> StatusCode resp \<noteq> 404
              then [''ES delete error: '' @ respBody resp] else []))"

text \<open>
  The sink as the requests address it: documents by URL. A \<^verbatim>\<open>PUT\<close> that the sink
  answers with a status below 300 stores or replaces the document at its URL, such a
  \<^verbatim>\<open>DELETE\<close> removes it, and a request that fails changes nothing; this is the document
  interface of the search index, which is outside the program. The sink keeps the
  document itself (the request carries its serialization).
\<close>

datatype sink_call = Upsert ESTicket | Delete ESTicket

definition accepted :: "env \<Rightarrow> http_request \<Rightarrow> bool" where
  "accepted e r = (case Do e r of Inl err \<Rightarrow> False | Inr resp \<Rightarrow> StatusCode resp < 300)"

fun sinkStep ::
  "env \<Rightarrow> ESConfig \<Rightarrow> sink_call \<Rightarrow> (string \<rightharpoonup> ESTicket) \<Rightarrow> (string \<rightharpoonup> ESTicket)" where
  "sinkStep e conf (Upsert t) sink =
     (let r = fst (upsertESTicket e conf t)
      in if accepted e r then sink(reqURL r \<mapsto> t) else sink)"
| "sinkStep e conf (Delete t) sink =
     (let r = fst (deleteESTicket e conf t)
      in if accepted e r then sink(reqURL r := None) else sink)"

fun sinkRun ::
  "env \<Rightarrow> ESConfig \<Rightarrow> sink_call list \<Rightarrow> (string \<rightharpoonup> ESTicket) \<Rightarrow> (string \<rightharpoonup> ESTicket)" where
  "sinkRun e conf [] sink = sink"
| "sinkRun e conf (c # cs) sink = sinkRun e conf cs (sinkStep e conf c sink)"

text \<open>Every document of the sink lies at the URL its own identity hash names.\<close>

definition slotted :: "env \<Rightarrow> ESConfig \<Rightarrow> (string \<rightharpoonup> ESTicket) \<Rightarrow> bool" where
  "slotted e conf sink =
     (\<forall>u t. sink u = Some t \<longrightarrow>
        u = confURL conf @ ''/'' @ confIndex conf @ ''/_doc/'' @
              hashTicketKey e (esID t) (esRef t) (esClass t))"

section \<open>One synchronization cycle (main.go, syncLoop)\<close>

text \<open>Lines 135-138: the snapshot of the sink, keyed by identity hash; a later entry wins.\<close>

definition buildESTicketMap :: "env \<Rightarrow> ESTicket list \<Rightarrow> (string \<rightharpoonup> ESTicket)" where
  "buildESTicketMap e esTickets =
     fold (\<lambda>t m. m(hashTicketKey e (esID t) (esRef t) (esClass t) \<mapsto> t)) esTickets Map.empty"

text \<open>
  Lines 141-150, the loop over \<^verbatim>\<open>allTickets\<close>. The loop state is \<^verbatim>\<open>esTicketMap\<close>, the
  documents \<^verbatim>\<open>upsertESTicket\<close> has been called with so far (in call order) and the state
  of package \<^verbatim>\<open>itop\<close>.
\<close>

fun syncTickets ::
  "env \<Rightarrow> string set \<Rightarrow> bool \<Rightarrow> Ticket list \<Rightarrow>
   (string \<rightharpoonup> ESTicket) \<times> ESTicket list \<times> itop_state \<Rightarrow>
   (string \<rightharpoonup> ESTicket) \<times> ESTicket list \<times> itop_state" where
  "syncTickets e holidayMap debug [] s = s"
| "syncTickets e holidayMap debug (t # ts) (esTicketMap, upserts, st) =
     (let key = hashTicketKey e (ID t) (Ref t) (Class t);
          (est, st') = mapTicketToES e t holidayMap debug st;
          upserts' =
            (case esTicketMap key of
               None \<Rightarrow> upserts @ [est]
             | Some old \<Rightarrow> if \<not> compareESTicket e est old then upserts @ [est] else upserts)
      in syncTickets e holidayMap debug ts (esTicketMap(key := None), upserts', st'))"

text \<open>
  Lines 134-154, one cycle from the fetched tickets and the fetched snapshot. The result
  is the map left after the loop, the upserted documents and the state of package
  \<^verbatim>\<open>itop\<close>. Lines 152-154 call \<^verbatim>\<open>deleteESTicket\<close> once for every entry of the map that is
  left, in the unspecified order of a Go map: the entries left are the deletions.
\<close>

definition syncCycle ::
  "env \<Rightarrow> string set \<Rightarrow> bool \<Rightarrow> Ticket list \<Rightarrow> ESTicket list \<Rightarrow> itop_state \<Rightarrow>
   (string \<rightharpoonup> ESTicket) \<times> ESTicket list \<times> itop_state" where
  "syncCycle e holidayMap debug allTickets esTickets st =
     syncTickets e holidayMap debug allTickets (buildESTicketMap e esTickets, [], st)"

definition toDelete ::
  "(string \<rightharpoonup> ESTicket) \<times> ESTicket list \<times> itop_state \<Rightarrow> (string \<rightharpoonup> ESTicket)" where
  "toDelete r = fst r"

definition toUpsert ::
  "(string \<rightharpoonup> ESTicket) \<times> ESTicket list \<times> itop_state \<Rightarrow> ESTicket list" where
  "toUpsert r = fst (snd r)"

text \<open>
  The target records of a cycle: the documents \<^verbatim>\<open>mapTicketToES\<close> computes for the
  tickets, in order, with the state passed along as the loop does.
\<close>

fun targetRecords ::
  "env \<Rightarrow> string set \<Rightarrow> bool \<Rightarrow> Ticket list \<Rightarrow> itop_state \<Rightarrow> ESTicket list" where
  "targetRecords e holidayMap debug [] st = []"
| "targetRecords e holidayMap debug (t # ts) st =
     (case mapTicketToES e t holidayMap debug st of
        (est, st') \<Rightarrow> est # targetRecords e holidayMap debug ts st')"

definition identityHash :: "env \<Rightarrow> ESTicket \<Rightarrow> string" where
  "identityHash e t = hashTicketKey e (esID t) (esRef t) (esClass t)"

text \<open>The identity hash of a source ticket, as line 142 computes it.\<close>

abbreviation keyOf :: "env \<Rightarrow> Ticket \<Rightarrow> string" where
  "keyOf e t \<equiv> hashTicketKey e (ID t) (Ref t) (Class t)"

text \<open>The deadlines looked up for a ticket (line 197).\<close>

abbreviation sltOf :: "env \<Rightarrow> Ticket \<Rightarrow> SLT" where
  "sltOf e t \<equiv> GetSLTDeadlineCached e (Class t) (Priority t) (Service t)"

section \<open>Concrete inputs\<close>

text \<open>
  The state of package \<^verbatim>\<open>itop\<close> at start-up (\<^verbatim>\<open>make(map[string]string)\<close>, nothing sent).
\<close>

definition initState :: itop_state where
  "initState = \<lparr>personTeamCache = Map.empty, posted = []\<rparr>"

text \<open>
  An environment to run the definitions in: the iTop credentials are set, the remote
  answers every lookup with a body that is not JSON, no business time is counted, the
  deadlines are one hour (response) and four hours (resolution), and the sink answers
  200. The digest is replaced by the identity and the serializer by a short rendering
  of four fields; both are stand-ins for the library.
\<close>

definition exampleEnv :: env where
  "exampleEnv =
     \<lparr>Getenv = (\<lambda>k. if k = ''ITOP_API_URL'' then ''http://itop/rest''
                      else if k = ''ITOP_API_USER'' then ''sync''
                      else if k = ''ITOP_API_PWD'' then ''secret'' else []),
      Sha1Hex = (\<lambda>s. s),
      Marshal = (\<lambda>t. esID t @ ''|'' @ esRef t @ ''|'' @ esClass t @ ''|'' @ esTitle t),
      LoadLocation = (\<lambda>tz. if tz = ''UTC'' then Some ''UTC'' else None),
      Local = ''Local'',
      CalculateBusinessHourDuration = (\<lambda>a b ws we h. 0),
      GetSLTDeadlineCached = (\<lambda>c p s. \<lparr>TTO = 3600000000000, TTR = 14400000000000\<rparr>),
      Post = (\<lambda>k. Inr ''<html>Bad Gateway</html>''),
      Unmarshal = (\<lambda>b. Inl ''invalid character'') ,
      Do = (\<lambda>r. Inr \<lparr>StatusCode = 200, respBody = []\<rparr>)\<rparr>"

definition zeroTime :: Time where
  "zeroTime = \<lparr>instant = 0, location = ''UTC''\<rparr>"

text \<open>
  A ticket answered after two hours of wall-clock time and not yet resolved.
\<close>

definition exampleTicket :: Ticket where
  "exampleTicket =
     \<lparr>ID = ''1'', Ref = ''I-000001'', Class = ''Incident'', Title = ''Printer'',
      Status = ''assigned'', Priority = ''2'', Urgency = ''2'', Impact = ''3'',
      ServiceID = ''7'', Service = ''Printing'', ServiceSubcategory = ''Toner'',
      AgentID = ''4'', Agent = ''Ann'', TeamID = ''5'', Team = ''Helpdesk'',
      Caller = ''Bob'', Origin = ''portal'',
      StartDate = \<lparr>instant = 63900000000000000000, location = ''UTC''\<rparr>,
      AssignmentDate = \<lparr>instant = 63900007200000000000, location = ''UTC''\<rparr>,
      ResolutionDate = zeroTime,
      TimeToResponse = 7200000000000, TimeToResolve = 0\<rparr>"

text \<open>A document with the given key and title; every other field is empty or zero.\<close>

definition doc :: "string \<Rightarrow> string \<Rightarrow> string \<Rightarrow> string \<Rightarrow> ESTicket" where
  "doc i ref class title =
     \<lparr>esID = i, esRef = ref, esClass = class, esTitle = title,
      esStatus = [], esPriority = [], esUrgency = [], esImpact = [],
      esServiceID = [], esServiceName = [], esServiceSubcategoryName = [],
      esAgentID = [], esAgent = [], esTeamID = [], esTeam = [],
      esCaller = [], esCallerTeam = [], esOrigin = [],
      esStartDate = None, esAssignmentDate = None, esResolutionDate = None,
      TimeToResponseRaw = 0, TimeToResolveRaw = 0,
      SLAComplianceResponseRaw = [], SLAComplianceResolveRaw = [],
      TimeToResponseBusinessHr = 0, TimeToResolveBusinessHr = 0,
      SLAComplianceResponseBusinessHour = [], SLAComplianceResolveBusinessHour = [],
      TimeToResponse24BH = 0, TimeToResolve24BH = 0,
      SLAComplianceResponse24BH = [], SLAComplianceResolve24BH = []\<rparr>"

text \<open>
  Deadlines of 20 000 000 seconds (about 231 days), and a ticket answered one nanosecond
  of wall-clock time after the deadline, with 5 000 000 seconds of business time.
\<close>

definition lateEnv :: env where
  "lateEnv =
     exampleEnv\<lparr>CalculateBusinessHourDuration := (\<lambda>a b ws we h. 5000000000000000),
                GetSLTDeadlineCached :=
                  (\<lambda>c p s. \<lparr>TTO = 20000000000000000, TTR = 20000000000000000\<rparr>)\<rparr>"

definition lateTicket :: Ticket where
  "lateTicket =
     exampleTicket\<lparr>AssignmentDate := \<lparr>instant = 63920000000000000001, location = ''UTC''\<rparr>,
                   TimeToResponse := 20000000000000001\<rparr>"

text \<open>
  The same deadlines, and a ticket answered after 80 000 000 seconds of wall-clock time,
  of which one nanosecond more than the deadline is business time.
\<close>

definition slowEnv :: env where
  "slowEnv = lateEnv\<lparr>CalculateBusinessHourDuration := (\<lambda>a b ws we h. 20000000000000001)\<rparr>"

definition slowTicket :: Ticket where
  "slowTicket =
     exampleTicket\<lparr>AssignmentDate := \<lparr>instant = 63980000000000000000, location = ''UTC''\<rparr>,
                   TimeToResponse := 80000000000000000\<rparr>"

text \<open>
  Two tickets with different composite keys whose joined key strings are equal:
  \<open>1:2\<close>, \<open>3\<close> and \<open>1\<close>, \<open>2:3\<close> both join to \<open>1:2:3:Incident\<close>.
\<close>

definition collideA :: Ticket where
  "collideA = exampleTicket\<lparr>ID := ''1:2'', Ref := ''3''\<rparr>"

definition collideB :: Ticket where
  "collideB = exampleTicket\<lparr>ID := ''1'', Ref := ''2:3''\<rparr>"

definition exampleConf :: ESConfig where
  "exampleConf = \<lparr>confURL = ''http://es:9200'', confUsername = ''elastic'',
                   confPassword = ''pw'', confIndex = ''tickets''\<rparr>"

section \<open>Durations and the fields of a mapped document\<close>

lemma bitLength_bounds:
  "0 < n \<Longrightarrow> 2 ^ nat (bitLength n - 1) \<le> n \<and> n < 2 ^ nat (bitLength n) \<and> 1 \<le> bitLength n"
proof (induction n rule: bitLength.induct)
  case (1 n)
  show ?case
  proof (cases "n = 1")
    case True
    then show ?thesis
      by (simp add: bitLength.simps [of 1] bitLength.simps [of 0])
  next
    case False
    with "1.prems" have pos: "0 < n div 2" by simp
    from "1.prems" have nle: "\<not> n \<le> 0" by simp
    from "1.IH" [OF nle pos]
    have lo: "2 ^ nat (bitLength (n div 2) - 1) \<le> n div 2"
      and hi: "n div 2 < 2 ^ nat (bitLength (n div 2))"
      and b1: "1 \<le> bitLength (n div 2)" by simp_all
    have b: "bitLength n = 1 + bitLength (n div 2)"
      using nle by (simp add: bitLength.simps [of n])
    have e1: "nat (bitLength n - 1) = Suc (nat (bitLength (n div 2) - 1))"
      using b b1 by simp
    have e2: "nat (bitLength n) = Suc (nat (bitLength (n div 2)))"
      using b b1 by simp
    have "(2::int) ^ nat (bitLength n - 1) \<le> 2 * (n div 2)"
      unfolding e1 using lo by simp
    moreover have "2 * (n div 2) \<le> n" by simp
    moreover have "n < 2 * (n div 2) + 2" by linarith
    moreover have "2 * (n div 2) + 2 \<le> (2::int) ^ nat (bitLength n)"
      unfolding e2 using hi by simp
    ultimately show ?thesis using b b1 by linarith
  qed
qed

lemma exponent_le:
  assumes "0 < x"
  shows "2 powi (exponent x) \<le> x"
proof (cases "1 \<le> x")
  case True
  then have pos: "0 < \<lfloor>x\<rfloor>" by simp
  from bitLength_bounds [OF pos]
  have lo: "2 ^ nat (bitLength \<lfloor>x\<rfloor> - 1) \<le> \<lfloor>x\<rfloor>" and b1: "1 \<le> bitLength \<lfloor>x\<rfloor>" by simp_all
  have "(2::real) powi (bitLength \<lfloor>x\<rfloor> - 1) = 2 ^ nat (bitLength \<lfloor>x\<rfloor> - 1)"
    using b1 by (simp add: power_int_def)
  also have "\<dots> = of_int (2 ^ nat (bitLength \<lfloor>x\<rfloor> - 1))" by simp
  also have "\<dots> \<le> of_int \<lfloor>x\<rfloor>" using lo by (simp only: of_int_le_iff)
  also have "\<dots> \<le> x" by simp
  finally show ?thesis using True by (simp add: exponent_def)
next
  case False
  with assms have x1: "x < 1" by simp
  define m where "m = \<lceil>1 / x\<rceil> - 1"
  from assms x1 have "1 < 1 / x" by simp
  then have "1 < \<lceil>1 / x\<rceil>" by (simp add: less_ceiling_iff)
  then have pos: "0 < m" by (simp add: m_def)
  from bitLength_bounds [OF pos]
  have hi: "m < 2 ^ nat (bitLength m)" and b1: "1 \<le> bitLength m" by simp_all
  then have "\<lceil>1 / x\<rceil> \<le> 2 ^ nat (bitLength m)" by (simp add: m_def)
  then have "1 / x \<le> of_int (2 ^ nat (bitLength m))"
    by (simp only: ceiling_le_iff)
  then have "1 / x \<le> 2 ^ nat (bitLength m)" by simp
  then have "1 \<le> 2 ^ nat (bitLength m) * x"
    using assms by (simp add: field_simps)
  then have "1 / 2 ^ nat (bitLength m) \<le> x"
    by (simp add: field_simps)
  moreover have "(2::real) powi (- bitLength m) = 1 / 2 ^ nat (bitLength m)"
    using b1 by (simp add: power_int_def field_simps)
  ultimately show ?thesis using False by (simp add: exponent_def m_def)
qed

lemma roundEven_ge_floor: "\<lfloor>q\<rfloor> \<le> roundEven q"
  by (simp add: roundEven_def Let_def)

lemma float64_pos:
  assumes "0 < x"
  shows "0 < float64 x"
proof -
  let ?ulp = "(2::real) powi (exponent x - 52)"
  have ulp: "0 < ?ulp" by simp
  have "?ulp = 2 powi (exponent x) / 2 ^ 52"
    by (simp add: power_int_diff)
  also have "\<dots> \<le> 2 powi (exponent x)"
    by (simp add: field_simps)
  also have "\<dots> \<le> x" by (rule exponent_le [OF assms])
  finally have "?ulp \<le> x" .
  then have "1 \<le> x / ?ulp"
    using ulp by (simp add: le_divide_eq_1_pos)
  then have "1 \<le> \<lfloor>x / ?ulp\<rfloor>" by simp
  with roundEven_ge_floor [of "x / ?ulp"] have "0 < roundEven (x / ?ulp)" by linarith
  then have "0 < of_int (roundEven (x / ?ulp)) * ?ulp"
    using ulp by simp
  then show ?thesis
    using assms by (simp add: float64_def Let_def)
qed

lemma float64_minus: "float64 (- x) = - float64 x"
  by (simp add: float64_def Let_def)

lemma float64_zero: "float64 0 = 0"
  by (simp add: float64_def)

lemma float64_pos_iff: "0 < float64 x \<longleftrightarrow> 0 < x"
proof (cases "0 < x")
  case True
  then show ?thesis by (simp add: float64_pos)
next
  case False
  then have "0 \<le> - x" by simp
  then have "0 \<le> float64 (- x)"
    using float64_pos [of "- x"] float64_zero by (cases "x = 0") auto
  with False show ?thesis by (simp add: float64_minus)
qed

lemma float64_zero_iff: "float64 x = 0 \<longleftrightarrow> x = 0"
  using float64_pos [of x] float64_pos [of "- x"] float64_zero
  by (cases "0 < x"; cases "x = 0") (auto simp: float64_minus)

lemma float64_nonneg: "0 \<le> x \<Longrightarrow> 0 \<le> float64 x"
  using float64_pos [of x] float64_zero by (cases "x = 0") auto

lemma sdiv_smod_nonneg:
  "0 \<le> d \<Longrightarrow> 0 \<le> d sdiv Second \<and> 0 \<le> d smod Second"
  by (simp add: signed_divide_int_def smod_int_alt_def Second_def sgn_if)

lemma Seconds_minus: "Seconds (- d) = - Seconds d"
proof -
  let ?a = "float64 (of_int (d sdiv Second))"
  let ?b = "float64 (float64 (of_int (d smod Second)) / 1000000000)"
  have "Seconds (- d) = float64 (- ?a - ?b)"
    by (simp add: Seconds_def float64_minus)
  also have "- ?a - ?b = - (?a + ?b)" by simp
  also have "float64 (- (?a + ?b)) = - float64 (?a + ?b)" by (rule float64_minus)
  finally show ?thesis by (simp add: Seconds_def)
qed

lemma Seconds_zero: "Seconds 0 = 0"
  by (simp add: Seconds_def float64_zero)

lemma Seconds_pos:
  assumes "0 < d"
  shows "0 < Seconds d"
proof -
  let ?s = "d sdiv Second" and ?r = "d smod Second"
  from assms sdiv_smod_nonneg [of d] have s: "0 \<le> ?s" and r: "0 \<le> ?r" by simp_all
  have "?s * Second + ?r = d" by (rule sdiv_mult_smod_eq)
  with assms have "0 < ?s \<or> 0 < ?r"
    using s r by (cases "?s = 0") auto
  moreover have a: "0 \<le> float64 (of_int ?s)" using s by (simp add: float64_nonneg)
  moreover have b: "0 \<le> float64 (float64 (of_int ?r) / 1000000000)"
    using r by (simp add: float64_nonneg)
  moreover have "0 < ?s \<Longrightarrow> 0 < float64 (of_int ?s)" by (simp add: float64_pos)
  moreover have "0 < ?r \<Longrightarrow> 0 < float64 (float64 (of_int ?r) / 1000000000)"
    by (simp add: float64_pos)
  ultimately have "0 < float64 (of_int ?s) + float64 (float64 (of_int ?r) / 1000000000)"
    by linarith
  then show ?thesis by (simp add: Seconds_def float64_pos)
qed

lemma Seconds_pos_iff: "0 < Seconds d \<longleftrightarrow> 0 < d"
proof (cases "0 < d")
  case True
  then show ?thesis by (simp add: Seconds_pos)
next
  case False
  then have "d = 0 \<or> 0 < - d" by linarith
  then have "Seconds d \<le> 0"
    using Seconds_pos [of "- d"] Seconds_zero by (auto simp: Seconds_minus)
  with False show ?thesis by simp
qed

lemma Seconds_zero_iff: "Seconds d = 0 \<longleftrightarrow> d = 0"
  using Seconds_pos [of d] Seconds_pos [of "- d"] Seconds_zero
  by (cases "0 < d"; cases "d = 0") (auto simp: Seconds_minus)

lemma Seconds_values:
  "Seconds 0 = 0"
  "Seconds 3600000000000 = 3600"
  "Seconds 7200000000000 = 7200"
  "Seconds 14400000000000 = 14400"
  "Seconds 20000000000000000 = 20000000"
  "Seconds 20000000000000001 = 20000000"
  by code_simp+

lemma map_raw_verdicts:
  "SLAComplianceResponseRaw (fst (mapTicketToES e t h d st)) =
     rawVerdict (TTO (sltOf e t)) (TimeToResponseRaw (fst (mapTicketToES e t h d st)))"
  "SLAComplianceResolveRaw (fst (mapTicketToES e t h d st)) =
     rawVerdict (TTR (sltOf e t)) (TimeToResolveRaw (fst (mapTicketToES e t h d st)))"
  by (simp_all add: mapTicketToES_def Let_def split: prod.splits)

lemma map_keys:
  "esID (fst (mapTicketToES e t h d st)) = ID t"
  "esRef (fst (mapTicketToES e t h d st)) = Ref t"
  "esClass (fst (mapTicketToES e t h d st)) = Class t"
  by (simp_all add: mapTicketToES_def Let_def split: prod.splits)

lemma bhVerdict_secs: "bhVerdict slt bh raw = bhVerdictSecs slt (Seconds bh) raw"
  by (simp add: bhVerdict_def bhVerdictSecs_def Seconds_pos_iff)

lemma map_bh_verdicts:
  "SLAComplianceResponseBusinessHour (fst (mapTicketToES e t h d st)) =
     bhVerdictSecs (TTO (sltOf e t)) (TimeToResponseBusinessHr (fst (mapTicketToES e t h d st)))
       (TimeToResponseRaw (fst (mapTicketToES e t h d st)))"
  "SLAComplianceResolveBusinessHour (fst (mapTicketToES e t h d st)) =
     bhVerdictSecs (TTR (sltOf e t)) (TimeToResolveBusinessHr (fst (mapTicketToES e t h d st)))
       (TimeToResolveRaw (fst (mapTicketToES e t h d st)))"
  "SLAComplianceResponse24BH (fst (mapTicketToES e t h d st)) =
     bhVerdictSecs (TTO (sltOf e t)) (TimeToResponse24BH (fst (mapTicketToES e t h d st)))
       (TimeToResponseRaw (fst (mapTicketToES e t h d st)))"
  "SLAComplianceResolve24BH (fst (mapTicketToES e t h d st)) =
     bhVerdictSecs (TTR (sltOf e t)) (TimeToResolve24BH (fst (mapTicketToES e t h d st)))
       (TimeToResolveRaw (fst (mapTicketToES e t h d st)))"
  by (simp_all add: mapTicketToES_def Let_def bhVerdict_secs split: prod.splits)

lemma example_fields:
  "TimeToResponseRaw (fst (mapTicketToES exampleEnv exampleTicket {} False initState)) = 7200"
  "TimeToResolveRaw (fst (mapTicketToES exampleEnv exampleTicket {} False initState)) = 0"
  "TimeToResponseBusinessHr (fst (mapTicketToES exampleEnv exampleTicket {} False initState)) = 0"
  "TimeToResolveBusinessHr (fst (mapTicketToES exampleEnv exampleTicket {} False initState)) = 0"
  "TimeToResponse24BH (fst (mapTicketToES exampleEnv exampleTicket {} False initState)) = 0"
  "TimeToResolve24BH (fst (mapTicketToES exampleEnv exampleTicket {} False initState)) = 0"
  "sltOf exampleEnv exampleTicket = \<lparr>TTO = 3600000000000, TTR = 14400000000000\<rparr>"
  by (simp_all add: mapTicketToES_def Let_def exampleEnv_def exampleTicket_def Seconds_values
        split: prod.splits)

lemma late_fields:
  "TimeToResponseRaw (fst (mapTicketToES lateEnv lateTicket {} False initState)) = 20000000"
  "sltOf lateEnv lateTicket = \<lparr>TTO = 20000000000000000, TTR = 20000000000000000\<rparr>"
  "TimeToResponse lateTicket = 20000000000000001"
  "TimeToResponseBusinessHr (fst (mapTicketToES slowEnv slowTicket {} False initState)) = 20000000"
  "sltOf slowEnv slowTicket = \<lparr>TTO = 20000000000000000, TTR = 20000000000000000\<rparr>"
  "CalculateBusinessHourDuration slowEnv a b ws we h = 20000000000000001"
  by (simp_all add: mapTicketToES_def Let_def lateEnv_def lateTicket_def slowEnv_def
        slowTicket_def exampleEnv_def
        exampleTicket_def Seconds_values split: prod.splits)

section \<open>Compliance verdicts\<close>

text \<open>
  C5, as stated, fails when durations are read as counts of nanoseconds: the deadline
  is 20 000 000 s and the ticket is answered one nanosecond later, so the observed
  duration is positive and greater than the deadline, yet the raw verdict is
  \<open>comply\<close>. Both durations convert to the same double.
\<close>

theorem raw_verdict_counterexample:
  "0 < TTO (sltOf lateEnv lateTicket) \<and> 0 < TimeToResponse lateTicket \<and>
   TTO (sltOf lateEnv lateTicket) < TimeToResponse lateTicket \<and>
   SLAComplianceResponseRaw (fst (mapTicketToES lateEnv lateTicket {} False initState)) =
     ''comply''"
  by (simp add: map_raw_verdicts late_fields rawVerdict_def Seconds_values)

text \<open>
  C5, amended. With a positive deadline and a positive wall-clock duration, the raw
  verdict of a mapped ticket is \<open>comply\<close> when the duration in seconds, as the double
  stored in the document, is at most the deadline in seconds, as the double
  \<^verbatim>\<open>Seconds\<close> returns, and \<open>overdue\<close> otherwise; when the deadline or the duration is
  zero the raw verdict is unknown (the empty string). This holds for response and for
  resolution.
\<close>

theorem raw_verdict:
  "(0 < TTO (sltOf e t) \<and> 0 < TimeToResponseRaw (fst (mapTicketToES e t h d st)) \<longrightarrow>
      SLAComplianceResponseRaw (fst (mapTicketToES e t h d st)) =
        (if TimeToResponseRaw (fst (mapTicketToES e t h d st)) \<le> Seconds (TTO (sltOf e t))
         then ''comply'' else ''overdue'')) \<and>
   (TTO (sltOf e t) = 0 \<or> TimeToResponseRaw (fst (mapTicketToES e t h d st)) = 0 \<longrightarrow>
      SLAComplianceResponseRaw (fst (mapTicketToES e t h d st)) = []) \<and>
   (0 < TTR (sltOf e t) \<and> 0 < TimeToResolveRaw (fst (mapTicketToES e t h d st)) \<longrightarrow>
      SLAComplianceResolveRaw (fst (mapTicketToES e t h d st)) =
        (if TimeToResolveRaw (fst (mapTicketToES e t h d st)) \<le> Seconds (TTR (sltOf e t))
         then ''comply'' else ''overdue'')) \<and>
   (TTR (sltOf e t) = 0 \<or> TimeToResolveRaw (fst (mapTicketToES e t h d st)) = 0 \<longrightarrow>
      SLAComplianceResolveRaw (fst (mapTicketToES e t h d st)) = []) \<and>
   TimeToResponseRaw (fst (mapTicketToES e t h d st)) = Seconds (TimeToResponse t) \<and>
   TimeToResolveRaw (fst (mapTicketToES e t h d st)) = Seconds (TimeToResolve t)"
  unfolding map_raw_verdicts
  by (simp add: rawVerdict_def) (simp add: mapTicketToES_def Let_def split: prod.splits)

theorem raw_verdict_witness:
  "SLAComplianceResponseRaw (fst (mapTicketToES exampleEnv exampleTicket {} False initState)) =
     ''overdue'' \<and>
   SLAComplianceResolveRaw (fst (mapTicketToES exampleEnv exampleTicket {} False initState)) = []"
  using raw_verdict [of exampleEnv exampleTicket "{}" False initState]
  by (simp add: example_fields Seconds_values)

text \<open>
  C10. Each of the six verdict fields of a mapped ticket is \<open>comply\<close>, \<open>overdue\<close> or
  the empty string, and unknown is never turned into \<open>comply\<close>: a field is \<open>comply\<close>
  only when its deadline is positive and a positive duration (the field's own, or for
  the windowed variants the wall-clock duration when their own is zero) is at most the
  deadline.
\<close>

theorem verdict_values:
  "SLAComplianceResponseRaw (fst (mapTicketToES e t h d st)) \<in> {''comply'', ''overdue'', []} \<and>
   SLAComplianceResolveRaw (fst (mapTicketToES e t h d st)) \<in> {''comply'', ''overdue'', []} \<and>
   SLAComplianceResponseBusinessHour (fst (mapTicketToES e t h d st))
     \<in> {''comply'', ''overdue'', []} \<and>
   SLAComplianceResolveBusinessHour (fst (mapTicketToES e t h d st))
     \<in> {''comply'', ''overdue'', []} \<and>
   SLAComplianceResponse24BH (fst (mapTicketToES e t h d st)) \<in> {''comply'', ''overdue'', []} \<and>
   SLAComplianceResolve24BH (fst (mapTicketToES e t h d st)) \<in> {''comply'', ''overdue'', []} \<and>
   (SLAComplianceResponseRaw (fst (mapTicketToES e t h d st)) = ''comply'' \<longrightarrow>
      0 < TTO (sltOf e t) \<and> 0 < TimeToResponseRaw (fst (mapTicketToES e t h d st)) \<and>
      TimeToResponseRaw (fst (mapTicketToES e t h d st)) \<le> Seconds (TTO (sltOf e t))) \<and>
   (SLAComplianceResolveRaw (fst (mapTicketToES e t h d st)) = ''comply'' \<longrightarrow>
      0 < TTR (sltOf e t) \<and> 0 < TimeToResolveRaw (fst (mapTicketToES e t h d st)) \<and>
      TimeToResolveRaw (fst (mapTicketToES e t h d st)) \<le> Seconds (TTR (sltOf e t))) \<and>
   (SLAComplianceResponseBusinessHour (fst (mapTicketToES e t h d st)) = ''comply'' \<longrightarrow>
      0 < TTO (sltOf e t) \<and>
      (0 < TimeToResponseBusinessHr (fst (mapTicketToES e t h d st)) \<and>
       TimeToResponseBusinessHr (fst (mapTicketToES e t h d st)) \<le> Seconds (TTO (sltOf e t)) \<or>
       TimeToResponseBusinessHr (fst (mapTicketToES e t h d st)) = 0 \<and>
       0 < TimeToResponseRaw (fst (mapTicketToES e t h d st)) \<and>
       TimeToResponseRaw (fst (mapTicketToES e t h d st)) \<le> Seconds (TTO (sltOf e t)))) \<and>
   (SLAComplianceResolveBusinessHour (fst (mapTicketToES e t h d st)) = ''comply'' \<longrightarrow>
      0 < TTR (sltOf e t) \<and>
      (0 < TimeToResolveBusinessHr (fst (mapTicketToES e t h d st)) \<and>
       TimeToResolveBusinessHr (fst (mapTicketToES e t h d st)) \<le> Seconds (TTR (sltOf e t)) \<or>
       TimeToResolveBusinessHr (fst (mapTicketToES e t h d st)) = 0 \<and>
       0 < TimeToResolveRaw (fst (mapTicketToES e t h d st)) \<and>
       TimeToResolveRaw (fst (mapTicketToES e t h d st)) \<le> Seconds (TTR (sltOf e t)))) \<and>
   (SLAComplianceResponse24BH (fst (mapTicketToES e t h d st)) = ''comply'' \<longrightarrow>
      0 < TTO (sltOf e t) \<and>
      (0 < TimeToResponse24BH (fst (mapTicketToES e t h d st)) \<and>
       TimeToResponse24BH (fst (mapTicketToES e t h d st)) \<le> Seconds (TTO (sltOf e t)) \<or>
       TimeToResponse24BH (fst (mapTicketToES e t h d st)) = 0 \<and>
       0 < TimeToResponseRaw (fst (mapTicketToES e t h d st)) \<and>
       TimeToResponseRaw (fst (mapTicketToES e t h d st)) \<le> Seconds (TTO (sltOf e t)))) \<and>
   (SLAComplianceResolve24BH (fst (mapTicketToES e t h d st)) = ''comply'' \<longrightarrow>
      0 < TTR (sltOf e t) \<and>
      (0 < TimeToResolve24BH (fst (mapTicketToES e t h d st)) \<and>
       TimeToResolve24BH (fst (mapTicketToES e t h d st)) \<le> Seconds (TTR (sltOf e t)) \<or>
       TimeToResolve24BH (fst (mapTicketToES e t h d st)) = 0 \<and>
       0 < TimeToResolveRaw (fst (mapTicketToES e t h d st)) \<and>
       TimeToResolveRaw (fst (mapTicketToES e t h d st)) \<le> Seconds (TTR (sltOf e t))))"
  unfolding map_raw_verdicts map_bh_verdicts
  by (simp add: rawVerdict_def bhVerdictSecs_def)

theorem verdict_values_witness:
  "SLAComplianceResponseRaw (fst (mapTicketToES exampleEnv exampleTicket {} False initState))
     \<in> {''comply'', ''overdue'', []} \<and>
   SLAComplianceResolveRaw (fst (mapTicketToES exampleEnv exampleTicket {} False initState)) = [] \<and>
   SLAComplianceResponseBusinessHour
     (fst (mapTicketToES exampleEnv exampleTicket {} False initState)) \<noteq> ''comply'' \<and>
   SLAComplianceResponse24BH
     (fst (mapTicketToES exampleEnv exampleTicket {} False initState)) \<noteq> ''comply''"
  using verdict_values [of exampleEnv exampleTicket "{}" False initState]
  by (simp add: map_raw_verdicts map_bh_verdicts rawVerdict_def bhVerdictSecs_def
        example_fields Seconds_values)

text \<open>
  C1, as stated, fails. For the example ticket the deadline is positive (one hour), the
  business-hour duration is zero and the wall-clock duration (two hours) is positive and
  exceeds the deadline, yet the business-hour verdict is the empty string, not
  \<open>overdue\<close>. And for the ticket with one nanosecond more business time than its
  deadline of 20 000 000 s the verdict is \<open>comply\<close>, not \<open>overdue\<close>: the two
  durations convert to the same double.
\<close>

theorem bh_verdict_counterexample:
  "0 < TTO (sltOf exampleEnv exampleTicket) \<and>
   TimeToResponseBusinessHr (fst (mapTicketToES exampleEnv exampleTicket {} False initState)) = 0 \<and>
   0 < TimeToResponseRaw (fst (mapTicketToES exampleEnv exampleTicket {} False initState)) \<and>
   Seconds (TTO (sltOf exampleEnv exampleTicket))
     < TimeToResponseRaw (fst (mapTicketToES exampleEnv exampleTicket {} False initState)) \<and>
   SLAComplianceResponseBusinessHour
     (fst (mapTicketToES exampleEnv exampleTicket {} False initState)) \<noteq> ''overdue'' \<and>
   SLAComplianceResponseBusinessHour
     (fst (mapTicketToES exampleEnv exampleTicket {} False initState)) = [] \<and>
   0 < TTO (sltOf slowEnv slowTicket) \<and>
   TTO (sltOf slowEnv slowTicket) <
     CalculateBusinessHourDuration slowEnv (StartDate slowTicket) (AssignmentDate slowTicket)
       ''08:00'' ''17:00'' {} \<and>
   SLAComplianceResponseBusinessHour
     (fst (mapTicketToES slowEnv slowTicket {} False initState)) = ''comply''"
  by (simp add: map_bh_verdicts example_fields late_fields bhVerdictSecs_def Seconds_values)

text \<open>
  C1, amended. Durations and deadlines are compared in seconds, as the doubles
  \<^verbatim>\<open>Seconds\<close> returns. For a positive deadline: when the business-hour duration is
  positive the business-hour verdict is \<open>comply\<close> if that duration is at most the
  deadline and \<open>overdue\<close> otherwise; when it is zero and the wall-clock duration is
  positive the verdict is \<open>comply\<close> if the wall-clock duration is at most the deadline
  and unknown otherwise (the fallback never yields \<open>overdue\<close>); when both are zero the
  verdict is unknown. This holds for response and for resolution, each under its own
  deadline.
\<close>

theorem bh_verdict:
  "(0 < TTO (sltOf e t) \<longrightarrow>
     (0 < TimeToResponseBusinessHr (fst (mapTicketToES e t h d st)) \<longrightarrow>
        SLAComplianceResponseBusinessHour (fst (mapTicketToES e t h d st)) =
          (if TimeToResponseBusinessHr (fst (mapTicketToES e t h d st))
                \<le> Seconds (TTO (sltOf e t))
           then ''comply'' else ''overdue'')) \<and>
     (TimeToResponseBusinessHr (fst (mapTicketToES e t h d st)) = 0 \<and>
      0 < TimeToResponseRaw (fst (mapTicketToES e t h d st)) \<longrightarrow>
        SLAComplianceResponseBusinessHour (fst (mapTicketToES e t h d st)) =
          (if TimeToResponseRaw (fst (mapTicketToES e t h d st)) \<le> Seconds (TTO (sltOf e t))
           then ''comply'' else [])) \<and>
     (TimeToResponseBusinessHr (fst (mapTicketToES e t h d st)) = 0 \<and>
      TimeToResponseRaw (fst (mapTicketToES e t h d st)) = 0 \<longrightarrow>
        SLAComplianceResponseBusinessHour (fst (mapTicketToES e t h d st)) = [])) \<and>
   (0 < TTR (sltOf e t) \<longrightarrow>
     (0 < TimeToResolveBusinessHr (fst (mapTicketToES e t h d st)) \<longrightarrow>
        SLAComplianceResolveBusinessHour (fst (mapTicketToES e t h d st)) =
          (if TimeToResolveBusinessHr (fst (mapTicketToES e t h d st))
                \<le> Seconds (TTR (sltOf e t))
           then ''comply'' else ''overdue'')) \<and>
     (TimeToResolveBusinessHr (fst (mapTicketToES e t h d st)) = 0 \<and>
      0 < TimeToResolveRaw (fst (mapTicketToES e t h d st)) \<longrightarrow>
        SLAComplianceResolveBusinessHour (fst (mapTicketToES e t h d st)) =
          (if TimeToResolveRaw (fst (mapTicketToES e t h d st)) \<le> Seconds (TTR (sltOf e t))
           then ''comply'' else [])) \<and>
     (TimeToResolveBusinessHr (fst (mapTicketToES e t h d st)) = 0 \<and>
      TimeToResolveRaw (fst (mapTicketToES e t h d st)) = 0 \<longrightarrow>
        SLAComplianceResolveBusinessHour (fst (mapTicketToES e t h d st)) = [])) \<and>
   TimeToResponseBusinessHr (fst (mapTicketToES e t h d st)) =
     Seconds (CalculateBusinessHourDuration e (StartDate t) (AssignmentDate t)
       (if Getenv e ''WORK_START'' = [] then ''08:00'' else Getenv e ''WORK_START'')
       (if Getenv e ''WORK_END'' = [] then ''17:00'' else Getenv e ''WORK_END'') h) \<and>
   TimeToResolveBusinessHr (fst (mapTicketToES e t h d st)) =
     Seconds (CalculateBusinessHourDuration e (StartDate t) (ResolutionDate t)
       (if Getenv e ''WORK_START'' = [] then ''08:00'' else Getenv e ''WORK_START'')
       (if Getenv e ''WORK_END'' = [] then ''17:00'' else Getenv e ''WORK_END'') h) \<and>
   TimeToResponseRaw (fst (mapTicketToES e t h d st)) = Seconds (TimeToResponse t) \<and>
   TimeToResolveRaw (fst (mapTicketToES e t h d st)) = Seconds (TimeToResolve t)"
  unfolding map_bh_verdicts
  by (simp add: bhVerdictSecs_def) (simp add: mapTicketToES_def Let_def split: prod.splits)

theorem bh_verdict_witness:
  "0 < TTO (sltOf exampleEnv exampleTicket) \<and> 0 < TTR (sltOf exampleEnv exampleTicket) \<and>
   SLAComplianceResponseBusinessHour
     (fst (mapTicketToES exampleEnv exampleTicket {} False initState)) = [] \<and>
   SLAComplianceResolveBusinessHour
     (fst (mapTicketToES exampleEnv exampleTicket {} False initState)) = []"
  using bh_verdict [of exampleEnv exampleTicket "{}" False initState]
  by (simp add: map_bh_verdicts bhVerdictSecs_def example_fields Seconds_values)

section \<open>Person teams\<close>

lemma example_lookup:
  "FetchPersonTeams exampleEnv ''Bob'' initState =
     ((''-'', Some ''invalid character''),
      \<lparr>personTeamCache = Map.empty, posted = [personQuery ''Bob'']\<rparr>)"
  by (simp add: FetchPersonTeams_def exampleEnv_def initState_def Let_def)

text \<open>
  C6, as stated, fails: with the credentials set and a response body that does not
  parse, the lookup of \<open>Bob\<close> returns \<open>-\<close> with the error, but nothing is stored in
  the cache for \<open>Bob\<close>, and a second lookup sends the query to the remote again.
\<close>

theorem parse_failure_counterexample:
  "Unmarshal exampleEnv ''<html>Bad Gateway</html>'' = Inl ''invalid character'' \<and>
   fst (FetchPersonTeams exampleEnv ''Bob'' initState) = (''-'', Some ''invalid character'') \<and>
   personTeamCache (snd (FetchPersonTeams exampleEnv ''Bob'' initState)) ''Bob'' \<noteq> Some ''-'' \<and>
   posted (snd (FetchPersonTeams exampleEnv ''Bob''
                  (snd (FetchPersonTeams exampleEnv ''Bob'' initState)))) =
     [personQuery ''Bob'', personQuery ''Bob'']"
  unfolding example_lookup
  by (simp add: FetchPersonTeams_def exampleEnv_def Let_def)

text \<open>
  C6, amended. When the response body of the person lookup fails to parse, the lookup
  returns the \<open>-\<close> sentinel together with the parse error and leaves the cache as it
  was, so the next lookup of the same name contacts the remote again.
\<close>

theorem parse_failure:
  assumes "personTeamCache st n = None" and "n \<noteq> []"
    and "Getenv e ''ITOP_API_URL'' \<noteq> []" and "Getenv e ''ITOP_API_USER'' \<noteq> []"
    and "Getenv e ''ITOP_API_PWD'' \<noteq> []"
    and "Post e (personQuery n) = Inr resp" and "Unmarshal e resp = Inl err"
  shows "FetchPersonTeams e n st = ((''-'', Some err), st\<lparr>posted := posted st @ [personQuery n]\<rparr>) \<and>
         personTeamCache (snd (FetchPersonTeams e n st)) = personTeamCache st \<and>
         posted (snd (FetchPersonTeams e n (snd (FetchPersonTeams e n st)))) =
           posted st @ [personQuery n, personQuery n]"
  using assms by (simp add: FetchPersonTeams_def Let_def)

theorem parse_failure_witness:
  "FetchPersonTeams exampleEnv ''Bob'' initState =
     ((''-'', Some ''invalid character''), initState\<lparr>posted := posted initState @ [personQuery ''Bob'']\<rparr>) \<and>
   personTeamCache (snd (FetchPersonTeams exampleEnv ''Bob'' initState)) = personTeamCache initState"
proof -
  have 1: "personTeamCache initState ''Bob'' = None" by (simp add: initState_def)
  have 2: "''Bob'' \<noteq> []" by simp
  have 3: "Getenv exampleEnv ''ITOP_API_URL'' \<noteq> []" "Getenv exampleEnv ''ITOP_API_USER'' \<noteq> []"
    "Getenv exampleEnv ''ITOP_API_PWD'' \<noteq> []"
    by (simp_all add: exampleEnv_def)
  have 4: "Post exampleEnv (personQuery ''Bob'') = Inr ''<html>Bad Gateway</html>''"
    by (simp add: exampleEnv_def)
  have 5: "Unmarshal exampleEnv ''<html>Bad Gateway</html>'' = Inl ''invalid character''"
    by (simp add: exampleEnv_def)
  from parse_failure [OF 1 2 3 4 5] show ?thesis by simp
qed

lemma fetch_keeps_entry:
  "personTeamCache st k = Some v \<Longrightarrow> personTeamCache (snd (FetchPersonTeams e n st)) k = Some v"
  by (auto simp: FetchPersonTeams_def Let_def split: option.splits sum.splits)

lemma resolveAll_keeps_entry:
  "personTeamCache st k = Some v \<Longrightarrow> personTeamCache (resolveAll e ns st) k = Some v"
  by (induction ns arbitrary: st) (simp_all add: fetch_keeps_entry)

lemma fetch_empty_inv:
  "personTeamCache st [] = None \<or> personTeamCache st [] = Some ''-'' \<Longrightarrow>
   personTeamCache (snd (FetchPersonTeams e n st)) [] = None \<or>
   personTeamCache (snd (FetchPersonTeams e n st)) [] = Some ''-''"
  by (auto simp: FetchPersonTeams_def Let_def split: option.splits sum.splits)

lemma resolveAll_empty_inv:
  "personTeamCache st [] = None \<or> personTeamCache st [] = Some ''-'' \<Longrightarrow>
   personTeamCache (resolveAll e ns st) [] = None \<or>
   personTeamCache (resolveAll e ns st) [] = Some ''-''"
proof (induction ns arbitrary: st)
  case Nil
  then show ?case by simp
next
  case (Cons n ns)
  from fetch_empty_inv [OF Cons.prems] Cons.IH show ?case by simp
qed

lemma fetch_empty_hit:
  "personTeamCache st [] = Some ''-'' \<Longrightarrow> FetchPersonTeams e [] st = ((''-'', None), st)"
  by (simp add: FetchPersonTeams_def)

lemma fetch_empty_any:
  assumes "personTeamCache st [] = None \<or> personTeamCache st [] = Some ''-''"
  shows "fst (FetchPersonTeams e [] st) = (''-'', None) \<and>
         posted (snd (FetchPersonTeams e [] st)) = posted st \<and>
         personTeamCache (snd (FetchPersonTeams e [] st)) [] = Some ''-''"
  using assms by (auto simp: FetchPersonTeams_def)

text \<open>
  C8. In every state the package reaches from start-up, resolving the empty name returns
  \<open>-\<close> without an error and without sending anything to the remote, the cache then
  holds \<open>-\<close> under the empty name, and after any further lookups a resolution of the
  empty name is answered from the cache: it returns \<open>-\<close> and changes nothing.
\<close>

theorem empty_name:
  "fst (FetchPersonTeams e [] (resolveAll e ns initState)) = (''-'', None) \<and>
   posted (snd (FetchPersonTeams e [] (resolveAll e ns initState))) =
     posted (resolveAll e ns initState) \<and>
   personTeamCache (snd (FetchPersonTeams e [] (resolveAll e ns initState))) [] = Some ''-'' \<and>
   (\<forall>ms. FetchPersonTeams e []
           (resolveAll e ms (snd (FetchPersonTeams e [] (resolveAll e ns initState)))) =
         ((''-'', None),
          resolveAll e ms (snd (FetchPersonTeams e [] (resolveAll e ns initState)))))"
proof -
  have "personTeamCache initState [] = None \<or> personTeamCache initState [] = Some ''-''"
    by (simp add: initState_def)
  then have inv: "personTeamCache (resolveAll e ns initState) [] = None \<or>
      personTeamCache (resolveAll e ns initState) [] = Some ''-''"
    by (rule resolveAll_empty_inv)
  note a = fetch_empty_any [OF inv]
  from a have "personTeamCache (snd (FetchPersonTeams e [] (resolveAll e ns initState))) [] = Some ''-''"
    by simp
  then have "\<And>ms. personTeamCache
      (resolveAll e ms (snd (FetchPersonTeams e [] (resolveAll e ns initState)))) [] = Some ''-''"
    by (rule resolveAll_keeps_entry)
  then have "\<And>ms. FetchPersonTeams e []
           (resolveAll e ms (snd (FetchPersonTeams e [] (resolveAll e ns initState)))) =
         ((''-'', None),
          resolveAll e ms (snd (FetchPersonTeams e [] (resolveAll e ns initState))))"
    by (rule fetch_empty_hit)
  with a show ?thesis by blast
qed

theorem empty_name_witness:
  "FetchPersonTeams exampleEnv [] initState =
     ((''-'', None), \<lparr>personTeamCache = [[] \<mapsto> ''-''], posted = []\<rparr>) \<and>
   fst (FetchPersonTeams exampleEnv []
         (resolveAll exampleEnv [''Bob''] (snd (FetchPersonTeams exampleEnv [] initState)))) =
     (''-'', None) \<and>
   posted (snd (FetchPersonTeams exampleEnv []
         (resolveAll exampleEnv [''Bob''] (snd (FetchPersonTeams exampleEnv [] initState))))) =
     [personQuery ''Bob'']"
  using empty_name [of exampleEnv "[]"]
  by (simp add: FetchPersonTeams_def exampleEnv_def initState_def Let_def)

section \<open>Sink calls\<close>

text \<open>
  C7. When the sink answers a delete, a status of 404 is not reported: nothing is logged,
  as for a status below 300. Any other status of 300 or above is logged as an error with
  the response body.
\<close>

theorem delete_status:
  assumes "Do e (fst (deleteESTicket e conf t)) = Inr resp"
  shows "(StatusCode resp = 404 \<longrightarrow> snd (deleteESTicket e conf t) = []) \<and>
         (StatusCode resp < 300 \<longrightarrow> snd (deleteESTicket e conf t) = []) \<and>
         (300 \<le> StatusCode resp \<and> StatusCode resp \<noteq> 404 \<longrightarrow>
            snd (deleteESTicket e conf t) = [''ES delete error: '' @ respBody resp])"
  using assms by (simp add: deleteESTicket_def Let_def)

theorem delete_status_witness:
  "snd (deleteESTicket (exampleEnv\<lparr>Do := \<lambda>r. Inr \<lparr>StatusCode = 404, respBody = ''gone''\<rparr>\<rparr>)
         exampleConf (doc ''1'' ''I-000001'' ''Incident'' ''Printer'')) = [] \<and>
   snd (deleteESTicket (exampleEnv\<lparr>Do := \<lambda>r. Inr \<lparr>StatusCode = 500, respBody = ''boom''\<rparr>\<rparr>)
         exampleConf (doc ''1'' ''I-000001'' ''Incident'' ''Printer'')) =
     [''ES delete error: boom'']"
proof -
  have a: "Do (exampleEnv\<lparr>Do := \<lambda>r. Inr \<lparr>StatusCode = 404, respBody = ''gone''\<rparr>\<rparr>)
      (fst (deleteESTicket (exampleEnv\<lparr>Do := \<lambda>r. Inr \<lparr>StatusCode = 404, respBody = ''gone''\<rparr>\<rparr>)
         exampleConf (doc ''1'' ''I-000001'' ''Incident'' ''Printer''))) =
      Inr \<lparr>StatusCode = 404, respBody = ''gone''\<rparr>"
    by simp
  have b: "Do (exampleEnv\<lparr>Do := \<lambda>r. Inr \<lparr>StatusCode = 500, respBody = ''boom''\<rparr>\<rparr>)
      (fst (deleteESTicket (exampleEnv\<lparr>Do := \<lambda>r. Inr \<lparr>StatusCode = 500, respBody = ''boom''\<rparr>\<rparr>)
         exampleConf (doc ''1'' ''I-000001'' ''Incident'' ''Printer''))) =
      Inr \<lparr>StatusCode = 500, respBody = ''boom''\<rparr>"
    by simp
  from delete_status [OF a] delete_status [OF b] show ?thesis by simp
qed

text \<open>
  C9. The identity hash is a function of the composite key, so equal keys have equal
  hashes; it is not injective: moving a colon with what follows it from the end of the
  id to the front of the reference gives a different composite key with the same joined
  string and therefore the same hash, whatever the digest.
\<close>

theorem hash_collision:
  "(\<forall>i ref class i' ref' class'. i = i' \<and> ref = ref' \<and> class = class' \<longrightarrow>
      hashTicketKey e i ref class = hashTicketKey e i' ref' class') \<and>
   (a @ '':'' @ b, c, x) \<noteq> (a, b @ '':'' @ c, x) \<and>
   hashTicketKey e (a @ '':'' @ b) c x = hashTicketKey e a (b @ '':'' @ c) x"
  by (simp add: hashTicketKey_def)

theorem hash_collision_witness:
  "(''1:2'', ''3'', ''Incident'') \<noteq> (''1'', ''2:3'', ''Incident'') \<and>
   hashTicketKey exampleEnv ''1:2'' ''3'' ''Incident'' =
     hashTicketKey exampleEnv ''1'' ''2:3'' ''Incident''"
  using hash_collision [of exampleEnv "''1''" "''2''" "''3''" "''Incident''"]
  by simp

section \<open>One slot per composite key\<close>

lemma upsert_url:
  "reqURL (fst (upsertESTicket e conf t)) =
     confURL conf @ ''/'' @ confIndex conf @ ''/_doc/'' @
       hashTicketKey e (esID t) (esRef t) (esClass t)"
  by (simp add: upsertESTicket_def Let_def)

lemma delete_url:
  "reqURL (fst (deleteESTicket e conf t)) =
     confURL conf @ ''/'' @ confIndex conf @ ''/_doc/'' @
       hashTicketKey e (esID t) (esRef t) (esClass t)"
  by (simp add: deleteESTicket_def Let_def)

lemma slottedD:
  "slotted e conf sink \<Longrightarrow> sink u = Some t \<Longrightarrow>
   u = confURL conf @ ''/'' @ confIndex conf @ ''/_doc/'' @
         hashTicketKey e (esID t) (esRef t) (esClass t)"
  unfolding slotted_def by blast

lemma sinkStep_slotted:
  assumes "slotted e conf sink"
  shows "slotted e conf (sinkStep e conf c sink)"
  unfolding slotted_def
proof (intro allI impI)
  fix u t'
  assume h: "sinkStep e conf c sink u = Some t'"
  show "u = confURL conf @ ''/'' @ confIndex conf @ ''/_doc/'' @
              hashTicketKey e (esID t') (esRef t') (esClass t')"
  proof (cases c)
    case (Upsert t)
    show ?thesis
    proof (cases "accepted e (fst (upsertESTicket e conf t)) \<and>
                  u = reqURL (fst (upsertESTicket e conf t))")
      case True
      with h Upsert have "t' = t" by (simp add: Let_def)
      with True show ?thesis by (simp only: upsert_url)
    next
      case False
      with h Upsert have "sink u = Some t'" by (auto simp: Let_def split: if_splits)
      with assms show ?thesis by (rule slottedD)
    qed
  next
    case (Delete t)
    with h have "sink u = Some t'" by (auto simp: Let_def split: if_splits)
    with assms show ?thesis by (rule slottedD)
  qed
qed

lemma sinkRun_slotted: "slotted e conf sink \<Longrightarrow> slotted e conf (sinkRun e conf cs sink)"
  by (induction cs arbitrary: sink) (simp_all add: sinkStep_slotted)

text \<open>
  C4. Every upsert and every delete addresses the document URL named by the identity hash
  of the record's composite key, and after any sequence of upserts and deletes on an
  empty sink two stored documents with the same composite key lie at the same URL: the
  sink never holds two documents for one source identity.
\<close>

theorem one_slot:
  "reqURL (fst (upsertESTicket e conf t)) =
     confURL conf @ ''/'' @ confIndex conf @ ''/_doc/'' @
       hashTicketKey e (esID t) (esRef t) (esClass t) \<and>
   reqURL (fst (deleteESTicket e conf t)) =
     confURL conf @ ''/'' @ confIndex conf @ ''/_doc/'' @
       hashTicketKey e (esID t) (esRef t) (esClass t) \<and>
   (sinkRun e conf cs Map.empty u1 = Some t1 \<and> sinkRun e conf cs Map.empty u2 = Some t2 \<and>
    esID t1 = esID t2 \<and> esRef t1 = esRef t2 \<and> esClass t1 = esClass t2 \<longrightarrow> u1 = u2)"
proof -
  have inv: "slotted e conf (sinkRun e conf cs Map.empty)"
    by (rule sinkRun_slotted) (simp add: slotted_def)
  have "sinkRun e conf cs Map.empty u1 = Some t1 \<and> sinkRun e conf cs Map.empty u2 = Some t2 \<and>
    esID t1 = esID t2 \<and> esRef t1 = esRef t2 \<and> esClass t1 = esClass t2 \<longrightarrow> u1 = u2"
  proof (intro impI, elim conjE)
    assume a: "sinkRun e conf cs Map.empty u1 = Some t1" "sinkRun e conf cs Map.empty u2 = Some t2"
      and k: "esID t1 = esID t2" "esRef t1 = esRef t2" "esClass t1 = esClass t2"
    from slottedD [OF inv a(1)] slottedD [OF inv a(2)] k show "u1 = u2" by (simp only:)
  qed
  with upsert_url [of e conf t] delete_url [of e conf t] show ?thesis by (intro conjI)
qed

lemma doc_fields:
  "esID (doc i r c t) = i" "esRef (doc i r c t) = r" "esClass (doc i r c t) = c"
  "esTitle (doc i r c t) = t"
  by (simp_all add: doc_def)

lemma example_accepted: "accepted exampleEnv r"
  by (simp add: accepted_def exampleEnv_def)

lemma example_hash: "hashTicketKey exampleEnv i r c = i @ '':'' @ r @ '':'' @ c"
  by (simp add: hashTicketKey_def exampleEnv_def)

lemma example_url:
  "reqURL (fst (upsertESTicket exampleEnv exampleConf (doc i r c t))) =
     ''http://es:9200/tickets/_doc/'' @ i @ '':'' @ r @ '':'' @ c"
  by (simp add: upsert_url doc_fields example_hash exampleConf_def)

theorem one_slot_witness:
  "sinkRun exampleEnv exampleConf
     [Upsert (doc ''1'' ''I-000001'' ''Incident'' ''Printer''),
      Upsert (doc ''1'' ''I-000001'' ''Incident'' ''Printer jam'')] Map.empty
     ''http://es:9200/tickets/_doc/1:I-000001:Incident'' =
     Some (doc ''1'' ''I-000001'' ''Incident'' ''Printer jam'') \<and>
   reqURL (fst (upsertESTicket exampleEnv exampleConf
                  (doc ''1'' ''I-000001'' ''Incident'' ''Printer''))) =
     confURL exampleConf @ ''/'' @ confIndex exampleConf @ ''/_doc/'' @
       hashTicketKey exampleEnv (esID (doc ''1'' ''I-000001'' ''Incident'' ''Printer''))
         (esRef (doc ''1'' ''I-000001'' ''Incident'' ''Printer''))
         (esClass (doc ''1'' ''I-000001'' ''Incident'' ''Printer''))"
proof -
  have a: "sinkRun exampleEnv exampleConf
     [Upsert (doc ''1'' ''I-000001'' ''Incident'' ''Printer''),
      Upsert (doc ''1'' ''I-000001'' ''Incident'' ''Printer jam'')] Map.empty
     ''http://es:9200/tickets/_doc/1:I-000001:Incident'' =
     Some (doc ''1'' ''I-000001'' ''Incident'' ''Printer jam'')"
    by (simp add: Let_def example_accepted example_url)
  from a one_slot [THEN conjunct1] show ?thesis by (rule conjI)
qed

section \<open>Reconciliation\<close>

lemma fold_upd_map_of:
  "fold (\<lambda>t m. m(g t \<mapsto> t)) es m = m ++ map_of (rev (map (\<lambda>t. (g t, t)) es))"
proof (induction es arbitrary: m)
  case Nil
  show ?case by simp
next
  case (Cons x es)
  let ?R = "map_of (rev (map (\<lambda>t. (g t, t)) es))"
  have "fold (\<lambda>t m. m(g t \<mapsto> t)) (x # es) m = fold (\<lambda>t m. m(g t \<mapsto> t)) es (m(g x \<mapsto> x))"
    by (simp only: fold_Cons o_apply)
  also have "\<dots> = m(g x \<mapsto> x) ++ ?R" by (rule Cons.IH)
  also have "\<dots> = m ++ ([g x \<mapsto> x] ++ ?R)" by (simp add: map_add_assoc)
  also have "\<dots> = m ++ map_of (rev (map (\<lambda>t. (g t, t)) (x # es)))" by simp
  finally show ?case .
qed

lemma removed_key_other:
  assumes nin: "k t \<notin> k ` set ts" and "t' \<in> set ts" and "m (k t') = Some est"
  shows "(m(k t := None)) (k t') = Some est"
proof -
  from assms(2) have "k t' \<in> k ` set ts" by (rule imageI)
  with nin have "k t' \<noteq> k t" by metis
  with assms(3) show ?thesis by simp
qed

lemma identityHash_map: "identityHash e (fst (mapTicketToES e t h d st)) = keyOf e t"
  by (simp add: identityHash_def map_keys)

lemma targets_step:
  "targetRecords e h d (t # ts) st =
     fst (mapTicketToES e t h d st) # targetRecords e h d ts (snd (mapTicketToES e t h d st))"
  by (cases "mapTicketToES e t h d st") simp

lemma targets_keys:
  "map (identityHash e) (targetRecords e h d ts st) = map (keyOf e) ts"
proof (induction ts arbitrary: st)
  case Nil
  show ?case by simp
next
  case (Cons t ts)
  show ?case
    unfolding targets_step by (simp add: identityHash_map Cons.IH)
qed

lemma sync_step:
  "syncTickets e h d (t # ts) (m, ups, st) =
     syncTickets e h d ts
       (m(keyOf e t := None),
        (case m (keyOf e t) of
           None \<Rightarrow> ups @ [fst (mapTicketToES e t h d st)]
         | Some old \<Rightarrow>
             if Marshal e (fst (mapTicketToES e t h d st)) \<noteq> Marshal e old
             then ups @ [fst (mapTicketToES e t h d st)] else ups),
        snd (mapTicketToES e t h d st))"
proof (cases "mapTicketToES e t h d st")
  case (Pair est st')
  show ?thesis
  proof (cases "m (keyOf e t)")
    case None
    with Pair show ?thesis by (simp add: Let_def)
  next
    case (Some old)
    with Pair show ?thesis by (simp add: Let_def compareESTicket_def)
  qed
qed

lemma sync_map:
  "fst (syncTickets e h d ts (m, ups, st)) = (\<lambda>k. if k \<in> keyOf e ` set ts then None else m k)"
proof (induction ts arbitrary: m ups st)
  case Nil
  show ?case by simp
next
  case (Cons t ts)
  show ?case
    unfolding sync_step Cons.IH by (rule ext) simp
qed

lemma sync_ups_mono:
  "set ups \<subseteq> set (fst (snd (syncTickets e h d ts (m, ups, st))))"
proof (induction ts arbitrary: m ups st)
  case Nil
  show ?case by simp
next
  case (Cons t ts)
  let ?ups = "(case m (keyOf e t) of
           None \<Rightarrow> ups @ [fst (mapTicketToES e t h d st)]
         | Some old \<Rightarrow>
             if Marshal e (fst (mapTicketToES e t h d st)) \<noteq> Marshal e old
             then ups @ [fst (mapTicketToES e t h d st)] else ups)"
  have "set ups \<subseteq> set ?ups" by (cases "m (keyOf e t)") auto
  also have "\<dots> \<subseteq> set (fst (snd (syncTickets e h d ts
      (m(keyOf e t := None), ?ups, snd (mapTicketToES e t h d st)))))"
    by (rule Cons.IH)
  finally show ?case unfolding sync_step .
qed

lemma sync_ups_subset:
  "set (fst (snd (syncTickets e h d ts (m, ups, st)))) \<subseteq> set ups \<union> set (targetRecords e h d ts st)"
proof (induction ts arbitrary: m ups st)
  case Nil
  show ?case by simp
next
  case (Cons t ts)
  let ?est = "fst (mapTicketToES e t h d st)"
  let ?ups = "(case m (keyOf e t) of
           None \<Rightarrow> ups @ [?est]
         | Some old \<Rightarrow> if Marshal e ?est \<noteq> Marshal e old then ups @ [?est] else ups)"
  have 1: "set ?ups \<subseteq> set ups \<union> {?est}" by (cases "m (keyOf e t)") auto
  have "set (fst (snd (syncTickets e h d ts
      (m(keyOf e t := None), ?ups, snd (mapTicketToES e t h d st))))) \<subseteq>
        set ?ups \<union> set (targetRecords e h d ts (snd (mapTicketToES e t h d st)))"
    by (rule Cons.IH)
  with 1 show ?case unfolding sync_step targets_step by auto
qed

lemma sync_ups_complete:
  assumes "est \<in> set (targetRecords e h d ts st)"
    and "m (identityHash e est) = None \<or>
         (\<exists>old. m (identityHash e est) = Some old \<and> Marshal e est \<noteq> Marshal e old)"
  shows "est \<in> set (fst (snd (syncTickets e h d ts (m, ups, st))))"
  using assms
proof (induction ts arbitrary: m ups st)
  case Nil
  then show ?case by simp
next
  case (Cons t ts)
  let ?est = "fst (mapTicketToES e t h d st)"
  let ?st = "snd (mapTicketToES e t h d st)"
  let ?ups = "(case m (keyOf e t) of
           None \<Rightarrow> ups @ [?est]
         | Some old \<Rightarrow> if Marshal e ?est \<noteq> Marshal e old then ups @ [?est] else ups)"
  let ?m = "m(keyOf e t := None)"
  from Cons.prems(1) consider (head) "est = ?est"
    | (tail) "est \<in> set (targetRecords e h d ts ?st)"
    unfolding targets_step by auto
  then show ?case
  proof cases
    case head
    from Cons.prems(2) have "est \<in> set ?ups"
      unfolding head identityHash_map by (cases "m (keyOf e t)") auto
    moreover have "set ?ups \<subseteq> set (fst (snd (syncTickets e h d ts (?m, ?ups, ?st))))"
      by (rule sync_ups_mono)
    ultimately show ?thesis unfolding sync_step by blast
  next
    case tail
    have c: "?m (identityHash e est) = None \<or>
          (\<exists>old. ?m (identityHash e est) = Some old \<and> Marshal e est \<noteq> Marshal e old)"
      using Cons.prems(2) by (cases "identityHash e est = keyOf e t") simp_all
    have "est \<in> set (fst (snd (syncTickets e h d ts (?m, ?ups, ?st))))"
      using tail c by (rule Cons.IH)
    then show ?thesis unfolding sync_step .
  qed
qed

lemma sync_ups_none:
  assumes "list_all2 (\<lambda>t est. m (keyOf e t) = Some est) ts (targetRecords e h d ts st)"
    and "distinct (map (keyOf e) ts)"
  shows "fst (snd (syncTickets e h d ts (m, ups, st))) = ups"
  using assms
proof (induction ts arbitrary: m st)
  case Nil
  then show ?case by simp
next
  case (Cons t ts)
  let ?st = "snd (mapTicketToES e t h d st)"
  let ?m = "m(keyOf e t := None)"
  from Cons.prems(1) have head: "m (keyOf e t) = Some (fst (mapTicketToES e t h d st))"
    and tail: "list_all2 (\<lambda>t est. m (keyOf e t) = Some est) ts (targetRecords e h d ts ?st)"
    unfolding targets_step by simp_all
  from Cons.prems(2) have nin: "keyOf e t \<notin> keyOf e ` set ts" and dis: "distinct (map (keyOf e) ts)"
    by simp_all
  have "list_all2 (\<lambda>t' est. ?m (keyOf e t') = Some est) ts (targetRecords e h d ts ?st)"
    using tail
  proof (rule list.rel_mono_strong)
    fix t' est
    assume "t' \<in> set ts" and "m (keyOf e t') = Some est"
    with nin show "?m (keyOf e t') = Some est" by (rule removed_key_other)
  qed
  then have "fst (snd (syncTickets e h d ts (?m, ups, ?st))) = ups"
    using dis by (rule Cons.IH)
  then show ?case unfolding sync_step by (simp add: head)
qed

lemma build_map_of:
  "buildESTicketMap e es = map_of (rev (map (\<lambda>t. (identityHash e t, t)) es))"
  unfolding buildESTicketMap_def
  using fold_upd_map_of [of "\<lambda>t. hashTicketKey e (esID t) (esRef t) (esClass t)" es Map.empty]
  by (simp only: identityHash_def empty_map_add)

lemma build_dom: "dom (buildESTicketMap e es) = identityHash e ` set es"
  by (simp add: build_map_of dom_map_of_conv_image_fst image_image)

lemma build_hash: "buildESTicketMap e es k = Some t \<Longrightarrow> identityHash e t = k \<and> t \<in> set es"
proof -
  assume "buildESTicketMap e es k = Some t"
  then have "(k, t) \<in> set (rev (map (\<lambda>t. (identityHash e t, t)) es))"
    unfolding build_map_of by (rule map_of_SomeD)
  then show ?thesis by auto
qed

lemma build_distinct:
  assumes "distinct (map (identityHash e) es)" and "t \<in> set es"
  shows "buildESTicketMap e es (identityHash e t) = Some t"
proof -
  have "map fst (rev (map (\<lambda>t. (identityHash e t, t)) es)) = rev (map (identityHash e) es)"
    by (simp add: rev_map comp_def)
  with assms(1) have "distinct (map fst (rev (map (\<lambda>t. (identityHash e t, t)) es)))"
    by simp
  moreover have "(identityHash e t, t) \<in> set (rev (map (\<lambda>t. (identityHash e t, t)) es))"
    using assms(2) by auto
  ultimately show ?thesis
    unfolding build_map_of by (rule map_of_is_SomeI)
qed

lemma collision_upserts:
  assumes "keyOf e t1 = keyOf e t2"
  shows "toUpsert (syncCycle e h d [t1, t2] es st) \<noteq> []"
proof -
  let ?m = "buildESTicketMap e es"
  let ?est1 = "fst (mapTicketToES e t1 h d st)"
  let ?st1 = "snd (mapTicketToES e t1 h d st)"
  let ?ups1 = "(case ?m (keyOf e t1) of
           None \<Rightarrow> [] @ [?est1]
         | Some old \<Rightarrow> if Marshal e ?est1 \<noteq> Marshal e old then [] @ [?est1] else [])"
  have "(?m(keyOf e t1 := None)) (keyOf e t2) = None"
    using assms by simp
  then have "syncTickets e h d [t2] (?m(keyOf e t1 := None), ?ups1, ?st1) =
      (?m(keyOf e t1 := None, keyOf e t2 := None),
       ?ups1 @ [fst (mapTicketToES e t2 h d ?st1)], snd (mapTicketToES e t2 h d ?st1))"
    unfolding sync_step by simp
  then have "toUpsert (syncCycle e h d [t1, t2] es st) =
      ?ups1 @ [fst (mapTicketToES e t2 h d ?st1)]"
    unfolding syncCycle_def toUpsert_def sync_step by simp
  then show ?thesis by simp
qed

lemma example_keys:
  "keyOf exampleEnv collideA = ''1:2:3:Incident''"
  "keyOf exampleEnv collideB = ''1:2:3:Incident''"
  "keyOf exampleEnv exampleTicket = ''1:I-000001:Incident''"
  by (simp_all add: example_hash collideA_def collideB_def exampleTicket_def)

text \<open>
  C2, as stated, fails: two tickets with different composite keys but the same identity
  hash form a record set for which a cycle against a snapshot equal to the target still
  upserts. The first of them deletes the shared key from the map, so the second is not
  found and is upserted.
\<close>

theorem reconcile_idempotent_counterexample:
  "(ID collideA, Ref collideA, Class collideA) \<noteq> (ID collideB, Ref collideB, Class collideB) \<and>
   keyOf exampleEnv collideA = keyOf exampleEnv collideB \<and>
   toUpsert (syncCycle exampleEnv {} False [collideA, collideB]
               (targetRecords exampleEnv {} False [collideA, collideB] initState) initState)
     \<noteq> []"
proof -
  have k: "keyOf exampleEnv collideA = keyOf exampleEnv collideB"
    by (simp only: example_keys)
  have "(ID collideA, Ref collideA, Class collideA) \<noteq> (ID collideB, Ref collideB, Class collideB)"
    by (simp add: collideA_def collideB_def)
  with k collision_upserts [OF k] show ?thesis by (intro conjI)
qed

text \<open>
  C2, amended. The reconciliation step is idempotent on record sets whose records have
  pairwise different identity hashes: running a cycle whose current snapshot equals its
  target records issues no upsert and leaves nothing to delete.
\<close>

theorem reconcile_idempotent:
  assumes "distinct (map (keyOf e) ts)"
  shows "toUpsert (syncCycle e h d ts (targetRecords e h d ts st) st) = [] \<and>
         toDelete (syncCycle e h d ts (targetRecords e h d ts st) st) = Map.empty"
proof -
  let ?es = "targetRecords e h d ts st"
  let ?m = "buildESTicketMap e ?es"
  have keys: "map (identityHash e) ?es = map (keyOf e) ts" by (rule targets_keys)
  then have len: "length ?es = length ts" by (metis length_map)
  have dis: "distinct (map (identityHash e) ?es)" using assms keys by simp
  have all: "list_all2 (\<lambda>t est. ?m (keyOf e t) = Some est) ts ?es"
    unfolding list_all2_conv_all_nth
  proof (intro conjI allI impI)
    show "length ts = length ?es" using len by simp
  next
    fix i assume i: "i < length ts"
    then have "keyOf e (ts ! i) = map (keyOf e) ts ! i" by simp
    also have "\<dots> = map (identityHash e) ?es ! i" using keys by simp
    also have "\<dots> = identityHash e (?es ! i)" using i len by simp
    finally have "keyOf e (ts ! i) = identityHash e (?es ! i)" .
    moreover have "?es ! i \<in> set ?es" using i len by simp
    ultimately show "?m (keyOf e (ts ! i)) = Some (?es ! i)"
      using build_distinct [OF dis] by simp
  qed
  have up: "toUpsert (syncCycle e h d ts ?es st) = []"
    unfolding toUpsert_def syncCycle_def using all assms by (rule sync_ups_none)
  have "dom ?m = set (map (keyOf e) ts)"
    unfolding build_dom using keys by (metis list.set_map)
  then have "\<And>k. k \<notin> keyOf e ` set ts \<Longrightarrow> ?m k = None" by auto
  then have "toDelete (syncCycle e h d ts ?es st) = Map.empty"
    unfolding toDelete_def syncCycle_def sync_map by (intro ext) simp
  with up show ?thesis by (rule conjI)
qed

theorem reconcile_idempotent_witness:
  "distinct (map (keyOf exampleEnv) [exampleTicket]) \<and>
   toUpsert (syncCycle exampleEnv {} False [exampleTicket]
               (targetRecords exampleEnv {} False [exampleTicket] initState) initState) = [] \<and>
   toDelete (syncCycle exampleEnv {} False [exampleTicket]
               (targetRecords exampleEnv {} False [exampleTicket] initState) initState) =
     Map.empty"
proof -
  have a: "distinct (map (keyOf exampleEnv) [exampleTicket])" by simp
  from a reconcile_idempotent [OF a] show ?thesis by (rule conjI)
qed

text \<open>
  C3. For every target list and current snapshot: every target record whose identity
  hash is absent from the snapshot map, or whose serialization differs from that of the
  snapshot's record under its hash, is upserted; every identity hash of the snapshot
  that no target record has is left in the map, with the snapshot's record of that
  hash, and is therefore deleted; and no upserted record has an identity hash that is
  deleted.
\<close>

theorem reconcile_complete:
  "(\<forall>est \<in> set (targetRecords e h d ts st).
      buildESTicketMap e es (identityHash e est) = None \<or>
      (\<exists>old. buildESTicketMap e es (identityHash e est) = Some old \<and>
             Marshal e est \<noteq> Marshal e old) \<longrightarrow>
      est \<in> set (toUpsert (syncCycle e h d ts es st))) \<and>
   (\<forall>k. k \<in> identityHash e ` set es \<and>
        k \<notin> identityHash e ` set (targetRecords e h d ts st) \<longrightarrow>
        (\<exists>old \<in> set es. identityHash e old = k \<and>
                        toDelete (syncCycle e h d ts es st) k = Some old)) \<and>
   identityHash e ` set (toUpsert (syncCycle e h d ts es st)) \<inter>
     dom (toDelete (syncCycle e h d ts es st)) = {}"
proof (intro conjI ballI allI impI)
  fix est
  assume "est \<in> set (targetRecords e h d ts st)"
    and "buildESTicketMap e es (identityHash e est) = None \<or>
      (\<exists>old. buildESTicketMap e es (identityHash e est) = Some old \<and>
             Marshal e est \<noteq> Marshal e old)"
  then show "est \<in> set (toUpsert (syncCycle e h d ts es st))"
    unfolding toUpsert_def syncCycle_def by (rule sync_ups_complete)
next
  fix k
  assume a: "k \<in> identityHash e ` set es \<and>
        k \<notin> identityHash e ` set (targetRecords e h d ts st)"
  have keys: "identityHash e ` set (targetRecords e h d ts st) = keyOf e ` set ts"
    using targets_keys [of e h d ts st] by (metis list.set_map)
  from a have "k \<in> dom (buildESTicketMap e es)" by (simp add: build_dom)
  then obtain old where old: "buildESTicketMap e es k = Some old" by blast
  from build_hash [OF old] have h: "identityHash e old = k" and m: "old \<in> set es" by simp_all
  from a keys have "k \<notin> keyOf e ` set ts" by simp
  then have "toDelete (syncCycle e h d ts es st) k = Some old"
    unfolding toDelete_def syncCycle_def sync_map using old by simp
  with h m show "\<exists>old \<in> set es. identityHash e old = k \<and>
                        toDelete (syncCycle e h d ts es st) k = Some old" by blast
next
  have keys: "identityHash e ` set (targetRecords e h d ts st) = keyOf e ` set ts"
    using targets_keys [of e h d ts st] by (metis list.set_map)
  have "set (toUpsert (syncCycle e h d ts es st)) \<subseteq> set (targetRecords e h d ts st)"
    unfolding toUpsert_def syncCycle_def using sync_ups_subset [of e h d ts _ "[]" st] by simp
  then have 1: "identityHash e ` set (toUpsert (syncCycle e h d ts es st)) \<subseteq> keyOf e ` set ts"
    using keys by blast
  have 2: "dom (toDelete (syncCycle e h d ts es st)) \<inter> keyOf e ` set ts = {}"
    unfolding toDelete_def syncCycle_def sync_map by (auto split: if_splits)
  from 1 2 show "identityHash e ` set (toUpsert (syncCycle e h d ts es st)) \<inter>
     dom (toDelete (syncCycle e h d ts es st)) = {}" by blast
qed

theorem reconcile_complete_witness:
  "fst (mapTicketToES exampleEnv exampleTicket {} False initState) \<in>
     set (toUpsert (syncCycle exampleEnv {} False [exampleTicket]
            [doc ''9'' ''I-000009'' ''Incident'' ''Old''] initState)) \<and>
   (\<exists>old \<in> set [doc ''9'' ''I-000009'' ''Incident'' ''Old''].
      identityHash exampleEnv old = ''9:I-000009:Incident'' \<and>
      toDelete (syncCycle exampleEnv {} False [exampleTicket]
                  [doc ''9'' ''I-000009'' ''Incident'' ''Old''] initState)
        ''9:I-000009:Incident'' = Some old)"
proof -
  let ?est = "fst (mapTicketToES exampleEnv exampleTicket {} False initState)"
  let ?old = "doc ''9'' ''I-000009'' ''Incident'' ''Old''"
  have targets: "targetRecords exampleEnv {} False [exampleTicket] initState = [?est]"
    by (simp only: targets_step targetRecords.simps(1))
  have hn: "identityHash exampleEnv ?est = ''1:I-000001:Incident''"
    by (simp only: identityHash_map example_keys)
  have ho: "identityHash exampleEnv ?old = ''9:I-000009:Incident''"
    by (simp add: identityHash_def doc_fields example_hash)
  have build: "buildESTicketMap exampleEnv [?old] = [''9:I-000009:Incident'' \<mapsto> ?old]"
    by (simp add: build_map_of ho)
  have mem: "?est \<in> set (targetRecords exampleEnv {} False [exampleTicket] initState)"
    unfolding targets by simp
  have cond: "buildESTicketMap exampleEnv [?old] (identityHash exampleEnv ?est) = None"
    by (simp add: build hn)
  have pre: "''9:I-000009:Incident'' \<in> identityHash exampleEnv ` set [?old] \<and>
      ''9:I-000009:Incident'' \<notin>
        identityHash exampleEnv ` set (targetRecords exampleEnv {} False [exampleTicket] initState)"
    unfolding targets by (simp add: hn ho)
  note rc = reconcile_complete [of exampleEnv "{}" False "[exampleTicket]" initState "[?old]"]
  from rc [THEN conjunct1, THEN bspec, OF mem] cond
  have p1: "?est \<in> set (toUpsert (syncCycle exampleEnv {} False [exampleTicket] [?old] initState))"
    by blast
  from rc [THEN conjunct2, THEN conjunct1, THEN spec, THEN mp, OF pre]
  have p2: "\<exists>old \<in> set [?old].
      identityHash exampleEnv old = ''9:I-000009:Incident'' \<and>
      toDelete (syncCycle exampleEnv {} False [exampleTicket] [?old] initState)
        ''9:I-000009:Incident'' = Some old" .
  from p1 p2 show ?thesis by (rule conjI)
qed

end
